theory Spec2Isabelle
  imports Complex_Main "HOL-Library.AList" "HOL-Library.Char_ord" "HOL-Library.List_Lexorder"
begin

section \<open>Python values\<close>

text \<open>
  Request configurations, messages and content blocks are Python dictionaries and lists.
  A dictionary is an association list in insertion order: \<open>d.get(k)\<close> is \<open>map_of d k\<close>
  and \<open>d[k] = v\<close> is \<open>AList.update k v d\<close> (an existing key keeps its place, a new key
  goes to the end). Floating-point payloads (the temperature) are carried as rationals;
  they are only passed through.
\<close>

datatype pyval =
    PNone
  | PBool bool
  | PInt int
  | PFloat rat
  | PStr string
  | PList "pyval list"
  | PDict "(string \<times> pyval) list"

type_synonym pydict = "(string \<times> pyval) list"

text \<open>Python truthiness, as used by \<open>if x\<close>, \<open>x and y\<close>, \<open>x or y\<close>.\<close>

fun truthy :: "pyval \<Rightarrow> bool" where
  "truthy PNone = False"
| "truthy (PBool b) = b"
| "truthy (PInt n) = (n \<noteq> 0)"
| "truthy (PFloat r) = (r \<noteq> 0)"
| "truthy (PStr s) = (s \<noteq> [])"
| "truthy (PList xs) = (xs \<noteq> [])"
| "truthy (PDict kvs) = (kvs \<noteq> [])"

text \<open>\<open>d.get(k)\<close>: the value, or \<open>None\<close> for a missing key.\<close>

definition dict_get :: "pydict \<Rightarrow> string \<Rightarrow> pyval" where
  "dict_get d k = (case map_of d k of None \<Rightarrow> PNone | Some v \<Rightarrow> v)"

section \<open>Configuration builders\<close>

text \<open>
  The prompt of both builders is \<open>Union[str, list]\<close>, told apart by
  \<open>isinstance(message, list)\<close>.
\<close>

datatype prompt = Prompt_str string | Prompt_list "pyval list"

definition system_entry :: "string \<Rightarrow> pyval" where
  "system_entry system_message =
     PDict [(''role'', PStr ''system''), (''content'', PStr system_message)]"

definition user_entry :: "string \<Rightarrow> pyval" where
  "user_entry message = PDict [(''role'', PStr ''user''), (''content'', PStr message)]"

text \<open>
  \<open>create_chatgpt_config(message, max_tokens, temperature, batch_size, system_message,
  model, reasoning_effort)\<close>. The temperature is accepted and not used.
\<close>

fun create_chatgpt_config ::
  "prompt \<Rightarrow> int \<Rightarrow> rat \<Rightarrow> int \<Rightarrow> string \<Rightarrow> string \<Rightarrow> string \<Rightarrow> pydict" where
  "create_chatgpt_config (Prompt_list message) max_tokens temperature batch_size
       system_message model reasoning_effort =
     [(''model'', PStr model),
      (''max_completion_tokens'', PInt max_tokens),
      (''n'', PInt batch_size),
      (''reasoning_effort'', PStr reasoning_effort),
      (''messages'', PList ([system_entry system_message] @ message))]"
| "create_chatgpt_config (Prompt_str message) max_tokens temperature batch_size
       system_message model reasoning_effort =
     [(''model'', PStr model),
      (''max_completion_tokens'', PInt max_tokens),
      (''n'', PInt batch_size),
      (''reasoning_effort'', PStr reasoning_effort),
      (''messages'', PList [system_entry system_message, user_entry message])]"

text \<open>The single user message of the Anthropic string form: one text block.\<close>

definition text_block :: "string \<Rightarrow> pyval" where
  "text_block message = PDict [(''type'', PStr ''text''), (''text'', PStr message)]"

definition anthropic_user_entry :: "string \<Rightarrow> pyval" where
  "anthropic_user_entry message =
     PDict [(''role'', PStr ''user''), (''content'', PList [text_block message])]"

text \<open>
  \<open>create_anthropic_config(message, max_tokens, temperature, batch_size, system_message,
  model, tools)\<close>. \<open>tools\<close> is \<open>Optional[list]\<close>; \<open>if tools:\<close> adds the key for a
  non-empty list only.
\<close>

fun anthropic_base ::
  "prompt \<Rightarrow> int \<Rightarrow> rat \<Rightarrow> string \<Rightarrow> pydict" where
  "anthropic_base (Prompt_list message) max_tokens temperature model =
     [(''model'', PStr model),
      (''temperature'', PFloat temperature),
      (''max_tokens'', PInt max_tokens),
      (''messages'', PList message)]"
| "anthropic_base (Prompt_str message) max_tokens temperature model =
     [(''model'', PStr model),
      (''temperature'', PFloat temperature),
      (''max_tokens'', PInt max_tokens),
      (''messages'', PList [anthropic_user_entry message])]"

definition create_anthropic_config ::
  "prompt \<Rightarrow> int \<Rightarrow> rat \<Rightarrow> int \<Rightarrow> string \<Rightarrow> string \<Rightarrow> pyval list option \<Rightarrow> pydict" where
  "create_anthropic_config message max_tokens temperature batch_size system_message model tools =
     (let config = anthropic_base message max_tokens temperature model
      in case tools of
           None \<Rightarrow> config
         | Some ts \<Rightarrow> if ts \<noteq> [] then AList.update ''tools'' (PList ts) config else config)"


section \<open>Cooldown gate\<close>

text \<open>
  The gate reads the wall clock with \<open>time.time()\<close>, sleeps with \<open>time.sleep\<close> and keeps
  the module-level \<open>_last_openai_request_ts\<close>. The state holds the value the clock shows
  and that timestamp. Time is exact (rationals), not floating point. What the
  environment adds is given per call: \<open>oversleep\<close>, by how much \<open>time.sleep(wait)\<close>
  returns late, and \<open>lag\<close>, the time that passes between the first reading of the clock
  (or the end of the sleep) and the second reading. The lock makes the calls of several
  threads one sequence of calls.
\<close>

record gate_state =
  clock :: rat
  last_openai_request_ts :: rat

record gate_timing =
  oversleep :: rat
  lag :: rat

definition time_sleep :: "rat \<Rightarrow> rat \<Rightarrow> gate_state \<Rightarrow> gate_state" where
  "time_sleep secs over s = s\<lparr>clock := clock s + (secs + over)\<rparr>"

definition sleep_if_needed_for_openai_cooldown ::
  "rat \<Rightarrow> gate_timing \<Rightarrow> gate_state \<Rightarrow> gate_state" where
  "sleep_if_needed_for_openai_cooldown OPENAI_COOLDOWN_SEC tm s =
     (let now = clock s;
          wait = OPENAI_COOLDOWN_SEC - (now - last_openai_request_ts s);
          s1 = (if wait > 0 then time_sleep wait (oversleep tm) s else s);
          s2 = s1\<lparr>clock := clock s1 + lag tm\<rparr>
      in s2\<lparr>last_openai_request_ts := clock s2\<rparr>)"

text \<open>
  A sequence of calls of the gate. Before each call the clock moves by \<open>idle\<close> (the
  provider call and whatever else the callers do). The result lists the state after each
  call.
\<close>

fun gate_calls :: "rat \<Rightarrow> (rat \<times> gate_timing) list \<Rightarrow> gate_state \<Rightarrow> gate_state list" where
  "gate_calls T [] s = []"
| "gate_calls T ((idle, tm) # cs) s =
     (let s' = sleep_if_needed_for_openai_cooldown T tm (s\<lparr>clock := clock s + idle\<rparr>)
      in s' # gate_calls T cs s')"

text \<open>
  The clock does not run backwards during a call, and a sleep lasts at least as long as
  asked.
\<close>

definition timing_ok :: "gate_timing \<Rightarrow> bool" where
  "timing_ok tm = (0 \<le> oversleep tm \<and> 0 \<le> lag tm)"

section \<open>The provider, its responses and its errors\<close>

text \<open>
  A response is opaque but for what the executor reads: \<open>ret.choices\<close>,
  \<open>ret.choices[0].message.content\<close> and
  \<open>ret.usage.completion_tokens_details.{reasoning_tokens, accepted_prediction_tokens}\<close>.
  Every attribute that \<open>getattr(..., None)\<close> guards, or that may hold \<open>None\<close>, is an
  option.
\<close>

record token_details =
  reasoning_tokens :: "int option"
  accepted_prediction_tokens :: "int option"

record usage_info =
  completion_tokens_details :: "token_details option"

record chat_message =
  message_content :: "string option"

record choice =
  choice_message :: "chat_message option"

record response =
  choices :: "choice list option"
  usage :: "usage_info option"

text \<open>
  The classes of \<open>openai.OpenAIError\<close> the executor tells apart, in the order of its
  \<open>isinstance\<close> tests. An error carries \<open>e.response\<close> (with its headers, a mapping from
  names to strings, read here as a plain dictionary) and its text \<open>str(e)\<close>.
\<close>

datatype openai_error_class =
  BadRequestError | RateLimitError | APIConnectionError | OtherOpenAIError

record http_response =
  headers :: "(string \<times> string) list option"

record openai_error =
  err_class :: openai_error_class
  err_response :: "http_response option"
  err_str :: string

datatype py_exception =
    Exception string
  | ValueError string
  | OtherException string

text \<open>
  What one call of \<open>client.chat.completions.create(**config)\<close> (or of
  \<open>client.messages.create\<close>) does: it returns a value, possibly \<open>None\<close>, raises an
  \<open>OpenAIError\<close>, or raises an exception of another class.
\<close>

datatype outcome =
    Returned "response option"
  | Raised_OpenAIError openai_error
  | Raised_other py_exception

text \<open>
  The environment of an executor: the provider, as a function of the attempt number and
  the submitted configuration, and the builtins \<open>float(str)\<close> and \<open>int(str)\<close>, with
  \<open>None\<close> for \<open>ValueError\<close>. The value of a float is a rational; infinities and NaN
  are outside the model.
\<close>

record env =
  create :: "int \<Rightarrow> pydict \<Rightarrow> outcome"
  py_float :: "string \<Rightarrow> rat option"
  py_int_str :: "string \<Rightarrow> int option"

text \<open>
  What an executor does besides returning, in order: a call of the cooldown gate, a call of
  the provider with the submitted configuration (\<open>Dispatch_caching\<close> for
  \<open>client.beta.prompt_caching.messages.create\<close>), a call of \<open>time.sleep\<close>, and what
  is printed and logged (the fixed text; interpolated values are left out).
\<close>

datatype event =
    Cooldown
  | Dispatch pydict
  | Dispatch_caching pydict
  | Sleep rat
  | Print string
  | Info string
  | Warning string
  | Error string

fun dispatches :: "event list \<Rightarrow> pydict list" where
  "dispatches [] = []"
| "dispatches (Dispatch c # tr) = c # dispatches tr"
| "dispatches (ev # tr) = dispatches tr"

fun sleeps :: "event list \<Rightarrow> rat list" where
  "sleeps [] = []"
| "sleeps (Sleep secs # tr) = secs # sleeps tr"
| "sleeps (ev # tr) = sleeps tr"

text \<open>\<open>time.sleep(secs)\<close> raises \<open>ValueError\<close> for a negative argument.\<close>

definition time_sleep_call :: "rat \<Rightarrow> event list \<times> py_exception option" where
  "time_sleep_call secs =
     (if secs < 0 then ([], Some (ValueError ''sleep length must be non-negative''))
      else ([Sleep secs], None))"

section \<open>Server-suggested wait of a rate-limit error\<close>

definition is_digit :: "char \<Rightarrow> bool" where
  "is_digit c = (c \<in> set ''0123456789'')"

definition lower_char :: "char \<Rightarrow> char" where
  "lower_char c =
     (case map_of (zip ''ABCDEFGHIJKLMNOPQRSTUVWXYZ'' ''abcdefghijklmnopqrstuvwxyz'') c of
        None \<Rightarrow> c | Some l \<Rightarrow> l)"

text \<open>
  The pattern \<open>try again in ([0-9]*\.?[0-9]+)s\<close> under \<open>re.IGNORECASE\<close>, on texts of
  8-bit characters (the non-ASCII letters that \<open>IGNORECASE\<close> lets stand for \<open>i\<close> and
  \<open>s\<close> do not occur). \<open>strip_prefix_ci p s\<close> matches the literal \<open>p\<close> (given in lower
  case) at the start of \<open>s\<close> and returns the rest.
\<close>

fun strip_prefix_ci :: "string \<Rightarrow> string \<Rightarrow> string option" where
  "strip_prefix_ci [] s = Some s"
| "strip_prefix_ci (p # ps) [] = None"
| "strip_prefix_ci (p # ps) (c # cs) =
     (if lower_char c = p then strip_prefix_ci ps cs else None)"

text \<open>
  The group \<open>[0-9]*\.?[0-9]+\<close> followed by \<open>s\<close>, at the start of the text, as the
  backtracking matcher finds it: with \<open>d1\<close> the leading digits, either a dot, a non-empty
  run of digits \<open>d2\<close> and the \<open>s\<close> follow (the group is \<open>d1.d2\<close>), or \<open>d1\<close> is not empty
  and the \<open>s\<close> follows at once (the group is \<open>d1\<close>).
\<close>

definition follows_s :: "string \<Rightarrow> bool" where
  "follows_s r = (case r of [] \<Rightarrow> False | c # _ \<Rightarrow> lower_char c = CHR ''s'')"

definition match_seconds :: "string \<Rightarrow> string option" where
  "match_seconds r =
     (let d1 = takeWhile is_digit r; r1 = dropWhile is_digit r
      in case r1 of
           [] \<Rightarrow> None
         | c # r2 \<Rightarrow>
             if c = CHR ''.'' then
               (let d2 = takeWhile is_digit r2; r3 = dropWhile is_digit r2
                in if d2 \<noteq> [] \<and> follows_s r3 then Some (d1 @ ''.'' @ d2) else None)
             else if d1 \<noteq> [] \<and> follows_s r1 then Some d1 else None)"

definition match_here :: "string \<Rightarrow> string option" where
  "match_here s =
     (case strip_prefix_ci ''try again in '' s of
        None \<Rightarrow> None
      | Some r \<Rightarrow> match_seconds r)"

text \<open>\<open>re.search\<close>: the match at the leftmost position that has one; its group 1.\<close>

fun re_search_try_again :: "string \<Rightarrow> string option" where
  "re_search_try_again [] = match_here []"
| "re_search_try_again (c # cs) =
     (case match_here (c # cs) of
        Some g \<Rightarrow> Some g
      | None \<Rightarrow> re_search_try_again cs)"

text \<open>
  The header part of \<open>_extract_retry_after_seconds\<close>:
  \<open>headers.get("retry-after") or headers.get("Retry-After")\<close>, then \<open>float\<close> of a
  non-empty value; a value that is not a number (a date) is passed over.
\<close>

definition header_retry_after :: "(string \<times> string) list \<Rightarrow> string option" where
  "header_retry_after hs =
     (case map_of hs ''retry-after'' of
        Some v \<Rightarrow> if v \<noteq> [] then Some v else map_of hs ''Retry-After''
      | None \<Rightarrow> map_of hs ''Retry-After'')"

definition retry_after_from_headers :: "env \<Rightarrow> openai_error \<Rightarrow> rat option" where
  "retry_after_from_headers E e =
     (case err_response e of
        None \<Rightarrow> None
      | Some resp \<Rightarrow>
          (case headers resp of
             None \<Rightarrow> None
           | Some hs \<Rightarrow>
               if hs \<noteq> [] then
                 (case header_retry_after hs of
                    None \<Rightarrow> None
                  | Some retry_after \<Rightarrow>
                      if retry_after \<noteq> [] then py_float E retry_after else None)
               else None))"

definition retry_after_from_message :: "env \<Rightarrow> openai_error \<Rightarrow> rat option" where
  "retry_after_from_message E e =
     (case re_search_try_again (err_str e) of
        None \<Rightarrow> None
      | Some g \<Rightarrow> py_float E g)"

definition extract_retry_after_seconds :: "env \<Rightarrow> openai_error \<Rightarrow> rat option" where
  "extract_retry_after_seconds E e =
     (case retry_after_from_headers E e of
        Some secs \<Rightarrow> Some secs
      | None \<Rightarrow> retry_after_from_message E e)"

section \<open>OpenAI-style request executor\<close>

text \<open>
  The \<open>except openai.OpenAIError\<close> handler: the events it produces and the exception it
  raises, if any.
\<close>

definition handle_openai_error :: "env \<Rightarrow> openai_error \<Rightarrow> event list \<times> py_exception option" where
  "handle_openai_error E e =
     (case err_class e of
        BadRequestError \<Rightarrow>
          ([Info ''Request invalid'', Print (err_str e), Info (err_str e)],
           Some (Exception ''Invalid API Request''))
      | RateLimitError \<Rightarrow>
          (let retry_after =
                 (case extract_retry_after_seconds E e of None \<Rightarrow> 2 | Some secs \<Rightarrow> secs);
               (evs, raised) = time_sleep_call retry_after
           in ([Print ''Rate limit exceeded. Waiting...'', Info ''Rate limit exceeded. Waiting...'',
                Print (err_str e), Info (err_str e)] @ evs, raised))
      | APIConnectionError \<Rightarrow>
          (let (evs, raised) = time_sleep_call 5
           in ([Print ''API connection error. Waiting...'',
                Info ''API connection error. Waiting...'',
                Print (err_str e), Info (err_str e)] @ evs, raised))
      | OtherOpenAIError \<Rightarrow>
          (let (evs, raised) = time_sleep_call 1
           in ([Print ''Unknown error. Waiting...'', Info ''Unknown error. Waiting...'',
                Print (err_str e), Info (err_str e)] @ evs, raised)))"

text \<open>
  The retry loop \<open>while ret is None and retries < max_retries\<close>. The result is what the
  loop leaves in \<open>ret\<close> (or the exception that left the function), the final value of
  \<open>retries\<close> and the events. The attempt number given to the provider is \<open>retries\<close>.
\<close>

type_synonym loop_result = "(py_exception + response option) \<times> int \<times> event list"

definition prepend :: "event list \<Rightarrow> loop_result \<Rightarrow> loop_result" where
  "prepend evs res = (case res of (r, n, tr) \<Rightarrow> (r, n, evs @ tr))"

function chatgpt_loop :: "env \<Rightarrow> pydict \<Rightarrow> int \<Rightarrow> int \<Rightarrow> loop_result" where
  "chatgpt_loop E config max_retries retries =
     (if retries < max_retries then
        prepend [Cooldown, Info ''Creating API request'', Dispatch config]
          (case create E retries config of
             Returned (Some r) \<Rightarrow> (Inr (Some r), retries + 1, [])
           | Returned None \<Rightarrow> chatgpt_loop E config max_retries (retries + 1)
           | Raised_OpenAIError e \<Rightarrow>
               (case handle_openai_error E e of
                  (evs, Some x) \<Rightarrow> (Inl x, retries, evs)
                | (evs, None) \<Rightarrow> prepend evs (chatgpt_loop E config max_retries (retries + 1)))
           | Raised_other x \<Rightarrow> (Inl x, retries, []))
      else (Inr None, retries, []))"
  by pat_completeness auto
termination
  by (relation "measure (\<lambda>(E, config, max_retries, retries). nat (max_retries - retries))") auto

text \<open>\<open>int(cap)\<close>: truncation for a float, \<open>TypeError\<close> for \<open>None\<close>, a list or a dict.\<close>

fun py_int :: "env \<Rightarrow> pyval \<Rightarrow> int option" where
  "py_int E (PInt n) = Some n"
| "py_int E (PBool b) = Some (if b then 1 else 0)"
| "py_int E (PFloat r) = Some (if 0 \<le> r then \<lfloor>r\<rfloor> else \<lceil>r\<rceil>)"
| "py_int E (PStr s) = py_int_str E s"
| "py_int E PNone = None"
| "py_int E (PList xs) = None"
| "py_int E (PDict kvs) = None"

text \<open>
  The guard of the token-budget retry. \<open>first_content_empty\<close> is the first \<open>if\<close>, for
  a response that is there (a response object is truthy): \<open>None\<close> when reading
  \<open>ret.choices[0].message.content\<close> raises (no message), which the enclosing
  \<open>except Exception: pass\<close> swallows.
\<close>

definition first_content_empty :: "response \<Rightarrow> bool option" where
  "first_content_empty ret =
     (case choices ret of
        None \<Rightarrow> Some False
      | Some [] \<Rightarrow> Some False
      | Some (c # _) \<Rightarrow>
          (case choice_message c of
             None \<Rightarrow> None
           | Some m \<Rightarrow> Some (message_content m = None \<or> message_content m = Some [])))"

definition response_details :: "response \<Rightarrow> token_details option" where
  "response_details ret =
     (case usage ret of None \<Rightarrow> None | Some u \<Rightarrow> completion_tokens_details u)"

definition response_reasoning_tokens :: "response \<Rightarrow> int option" where
  "response_reasoning_tokens ret =
     (case response_details ret of None \<Rightarrow> None | Some d \<Rightarrow> reasoning_tokens d)"

definition response_accepted_pred :: "response \<Rightarrow> int option" where
  "response_accepted_pred ret =
     (case response_details ret of None \<Rightarrow> None | Some d \<Rightarrow> accepted_prediction_tokens d)"

text \<open>\<open>cap = config.get("max_tokens") or config.get("max_completion_tokens")\<close>\<close>

definition configured_cap :: "pydict \<Rightarrow> pyval" where
  "configured_cap config =
     (if truthy (dict_get config ''max_tokens'') then dict_get config ''max_tokens''
      else dict_get config ''max_completion_tokens'')"

text \<open>\<open>if cap and reasoning_tokens and (accepted_pred in (0, None))\<close>\<close>

definition budget_exhausted :: "pydict \<Rightarrow> response \<Rightarrow> bool" where
  "budget_exhausted config ret =
     (truthy (configured_cap config)
      \<and> (case response_reasoning_tokens ret of None \<Rightarrow> False | Some n \<Rightarrow> n \<noteq> 0)
      \<and> (response_accepted_pred ret = Some 0 \<or> response_accepted_pred ret = None))"

definition bump_config :: "int \<Rightarrow> pydict \<Rightarrow> pydict" where
  "bump_config bumped config =
     AList.update ''max_completion_tokens'' (PInt bumped)
       (AList.update ''max_tokens'' (PInt bumped) config)"

text \<open>
  The part of \<open>request_chatgpt_engine\<close> after the loop, for the value \<open>ret\<close> the loop
  left and the number \<open>n\<close> of the next attempt: the returned value, the configuration as
  the caller finds it afterwards, and the events. Every exception inside is swallowed.
\<close>

definition bump_retry ::
  "env \<Rightarrow> pydict \<Rightarrow> response option \<Rightarrow> int \<Rightarrow> response option \<times> pydict \<times> event list" where
  "bump_retry E config ret n =
     (case ret of
        None \<Rightarrow> (None, config, [])
      | Some r \<Rightarrow>
          if first_content_empty r = Some True \<and> budget_exhausted config r then
            (let log = Info (''Empty content likely due to reasoning tokens exhausting '' @
                             ''the budget; retrying with higher max tokens...'')
             in case py_int E (configured_cap config) of
                  None \<Rightarrow> (Some r, config, [log])
                | Some cap \<Rightarrow>
                    (let bumped = cap + max 512 (cap div 2);
                         config' = bump_config bumped config
                     in case create E n config' of
                          Returned ret' \<Rightarrow>
                            (ret', config',
                             [log, Cooldown, Dispatch config',
                              Info ''API response (retry with bumped tokens)''])
                        | Raised_OpenAIError e \<Rightarrow> (Some r, config', [log, Cooldown, Dispatch config'])
                        | Raised_other x \<Rightarrow> (Some r, config', [log, Cooldown, Dispatch config'])))
          else (Some r, config, []))"

record engine_result =
  returned :: "py_exception + response option"
  final_config :: pydict
  events :: "event list"

text \<open>
  \<open>request_chatgpt_engine(config, logger, base_url, max_retries, timeout)\<close>; \<open>base_url\<close>
  only configures the client and \<open>timeout\<close> is not used.
\<close>

definition request_chatgpt_engine :: "env \<Rightarrow> pydict \<Rightarrow> int \<Rightarrow> engine_result" where
  "request_chatgpt_engine E config max_retries =
     (case chatgpt_loop E config max_retries 0 of
        (Inl x, n, tr) \<Rightarrow> \<lparr>returned = Inl x, final_config = config, events = tr\<rparr>
      | (Inr ret, n, tr) \<Rightarrow>
          (case bump_retry E config ret n of
             (ret', config', tr') \<Rightarrow>
               \<lparr>returned = Inr ret', final_config = config',
                events = tr @ [Info ''API response''] @ tr'\<rparr>))"

section \<open>Anthropic-style request executor\<close>

text \<open>
  The response of the Anthropic client is not inspected; its type is a parameter. A call
  returns a value, possibly \<open>None\<close>, or raises.
\<close>

datatype 'r call_outcome = Returns "'r option" | Raises py_exception

text \<open>
  The environment: \<open>client.messages.create\<close>; \<open>client.beta.prompt_caching.messages.create\<close>
  when the client has it; and, for each attempt, the time \<open>time.time() - start_time\<close>
  read in the exception handler.
\<close>

record 'r anthropic_env =
  messages_create :: "nat \<Rightarrow> pydict \<Rightarrow> 'r call_outcome"
  prompt_caching_create :: "(nat \<Rightarrow> pydict \<Rightarrow> 'r call_outcome) option"
  elapsed :: "nat \<Rightarrow> rat"

text \<open>
  \<open>config["messages"][0]["content"][0]["cache_control"] = {"type": "ephemeral"}\<close>.
  The assignment works when \<open>messages\<close> is a list whose first entry is a dictionary whose
  \<open>content\<close> is a list whose first entry is a dictionary; every other shape raises
  \<open>KeyError\<close>, \<open>IndexError\<close> or \<open>TypeError\<close> (\<open>None\<close> here). The configuration is a
  value: the update of the innermost dictionary is carried up to the configuration.
\<close>

definition cache_control_value :: pyval where
  "cache_control_value = PDict [(''type'', PStr ''ephemeral'')]"

definition set_cache_control :: "pydict \<Rightarrow> pydict option" where
  "set_cache_control config =
     (case map_of config ''messages'' of
        Some (PList (PDict m # ms)) \<Rightarrow>
          (case map_of m ''content'' of
             Some (PList (PDict b # bs)) \<Rightarrow>
               Some (AList.update ''messages''
                 (PList (PDict (AList.update ''content''
                    (PList (PDict (AList.update ''cache_control'' cache_control_value b) # bs)) m)
                  # ms)) config)
           | _ \<Rightarrow> None)
      | _ \<Rightarrow> None)"

text \<open>
  The body of the \<open>try\<close> of one attempt: the configuration after it, the events and the
  outcome.
\<close>

record 'r attempt_result =
  config_now :: pydict
  attempt_trace :: "event list"
  outcome_of :: "'r call_outcome"

definition anthropic_attempt ::
  "'r anthropic_env \<Rightarrow> bool \<Rightarrow> pydict \<Rightarrow> nat \<Rightarrow> 'r attempt_result" where
  "anthropic_attempt A prompt_cache config retries =
     (if prompt_cache then
        (case set_cache_control config of
           None \<Rightarrow>
             \<lparr>config_now = config, attempt_trace = [],
              outcome_of = Raises (OtherException ''KeyError, IndexError or TypeError'')\<rparr>
         | Some config' \<Rightarrow>
             (case prompt_caching_create A of
                Some caching \<Rightarrow>
                  \<lparr>config_now = config', attempt_trace = [Dispatch_caching config'],
                   outcome_of = caching retries config'\<rparr>
              | None \<Rightarrow>
                  \<lparr>config_now = config', attempt_trace = [Dispatch config'],
                   outcome_of = messages_create A retries config'\<rparr>))
      else
        \<lparr>config_now = config, attempt_trace = [Dispatch config],
         outcome_of = messages_create A retries config\<rparr>)"

text \<open>The \<open>except Exception\<close> handler of attempt \<open>retries\<close>.\<close>

definition anthropic_handler :: "'r anthropic_env \<Rightarrow> rat \<Rightarrow> nat \<Rightarrow> event list" where
  "anthropic_handler A timeout retries =
     [Error ''Unknown error. Waiting...'',
      if elapsed A retries \<ge> timeout then Warning ''Request timed out. Retrying...''
      else Warning ''Retrying after an unknown error...'',
      Sleep (of_nat (10 * retries))]"

record 'r anthropic_result =
  response_returned :: "'r option"
  config_after :: pydict
  attempts :: nat
  trace :: "event list"

definition trace_prepend :: "event list \<Rightarrow> 'r anthropic_result \<Rightarrow> 'r anthropic_result" where
  "trace_prepend evs res = res\<lparr>trace := evs @ trace res\<rparr>"

function anthropic_loop ::
  "'r anthropic_env \<Rightarrow> rat \<Rightarrow> bool \<Rightarrow> int \<Rightarrow> pydict \<Rightarrow> nat \<Rightarrow> 'r anthropic_result" where
  "anthropic_loop A timeout prompt_cache max_retries config retries =
     (if int retries < max_retries then
        (case outcome_of (anthropic_attempt A prompt_cache config retries) of
           Returns (Some r) \<Rightarrow>
             \<lparr>response_returned = Some r,
              config_after = config_now (anthropic_attempt A prompt_cache config retries),
              attempts = retries + 1,
              trace = attempt_trace (anthropic_attempt A prompt_cache config retries)\<rparr>
         | Returns None \<Rightarrow>
             trace_prepend (attempt_trace (anthropic_attempt A prompt_cache config retries))
               (anthropic_loop A timeout prompt_cache max_retries
                  (config_now (anthropic_attempt A prompt_cache config retries)) (retries + 1))
         | Raises x \<Rightarrow>
             trace_prepend
               (attempt_trace (anthropic_attempt A prompt_cache config retries)
                @ anthropic_handler A timeout retries)
               (anthropic_loop A timeout prompt_cache max_retries
                  (config_now (anthropic_attempt A prompt_cache config retries)) (retries + 1)))
      else \<lparr>response_returned = None, config_after = config, attempts = retries, trace = []\<rparr>)"
  by pat_completeness auto
termination
  by (relation "measure (\<lambda>(A, timeout, prompt_cache, max_retries, config, retries).
        nat (max_retries - int retries))") auto

text \<open>\<open>request_anthropic_engine(config, logger, max_retries, timeout, prompt_cache)\<close>\<close>

definition request_anthropic_engine ::
  "'r anthropic_env \<Rightarrow> pydict \<Rightarrow> int \<Rightarrow> rat \<Rightarrow> bool \<Rightarrow> 'r anthropic_result" where
  "request_anthropic_engine A config max_retries timeout prompt_cache =
     anthropic_loop A timeout prompt_cache max_retries config 0"

text \<open>The trace without the text of its warnings.\<close>

definition strip_warnings :: "event list \<Rightarrow> event list" where
  "strip_warnings tr = map (\<lambda>ev. case ev of Warning w \<Rightarrow> Warning [] | _ \<Rightarrow> ev) tr"

section \<open>Notions used in the statements about the OpenAI-style executor\<close>

text \<open>The events of one attempt up to the provider call.\<close>

definition attempt_events :: "pydict \<Rightarrow> event list" where
  "attempt_events config = [Cooldown, Info ''Creating API request'', Dispatch config]"





text \<open>A text of the form \<open>[0-9]*\.?[0-9]+\<close>: digits, or digits, a dot and at least one digit.\<close>

definition seconds_text :: "string \<Rightarrow> bool" where
  "seconds_text g =
     (let d1 = takeWhile is_digit g; r = dropWhile is_digit g
      in case r of
           [] \<Rightarrow> d1 \<noteq> []
         | c # d2 \<Rightarrow> c = CHR ''.'' \<and> d2 \<noteq> [] \<and> list_all is_digit d2)"

section \<open>JSON formatter command line\<close>

text \<open>
  A path is the list of its parts; \<open>sorted\<close> orders paths part by part, as \<open>pathlib\<close>
  does. The file system and the \<open>json\<close> module are the environment: whether the directory
  exists and is a directory, the \<open>.json\<close> files that \<open>glob\<close> or \<open>rglob\<close> finds there,
  and, with the text of the exception on failure, reading a file, \<open>json.loads\<close>,
  \<open>json.dumps\<close> with the given indent, and writing a file. The parsed JSON value is
  opaque. The answers of the environment do not change during a run.
\<close>

type_synonym path = "string list"

record 'j fs_env =
  path_exists :: "path \<Rightarrow> bool"
  path_is_dir :: "path \<Rightarrow> bool"
  glob_json :: "path \<Rightarrow> bool \<Rightarrow> path list"
  read_text :: "path \<Rightarrow> string + string"
  json_loads :: "string \<Rightarrow> string + 'j"
  json_dumps :: "'j \<Rightarrow> int \<Rightarrow> string + string"
  write_text :: "path \<Rightarrow> string \<Rightarrow> string option"

fun path_str :: "path \<Rightarrow> string" where
  "path_str [] = ''.''"
| "path_str [p] = p"
| "path_str (p # ps) = p @ ''/'' @ path_str ps"

definition find_json_files :: "'j fs_env \<Rightarrow> path \<Rightarrow> bool \<Rightarrow> path list" where
  "find_json_files F root_dir recursive = glob_json F root_dir recursive"

definition ends_with_newline :: "string \<Rightarrow> bool" where
  "ends_with_newline s = (s \<noteq> [] \<and> last s = CHR 0x0A)"

text \<open>\<open>format_json_file(path, indent)\<close>: the pair \<open>(changed, error)\<close>.\<close>

definition format_json_file :: "'j fs_env \<Rightarrow> path \<Rightarrow> int \<Rightarrow> bool \<times> string option" where
  "format_json_file F p indent =
     (case read_text F p of
        Inl e \<Rightarrow> (False, Some (''Failed to read '' @ path_str p @ '': '' @ e))
      | Inr original_text \<Rightarrow>
          (case json_loads F original_text of
             Inl e \<Rightarrow> (False, Some (''Invalid JSON in '' @ path_str p @ '': '' @ e))
           | Inr data \<Rightarrow>
               (case json_dumps F data indent of
                  Inl e \<Rightarrow>
                    (False, Some (''Failed to serialize JSON for '' @ path_str p @ '': '' @ e))
                | Inr dumped \<Rightarrow>
                    (let formatted =
                           (if \<not> ends_with_newline dumped then dumped @ [CHR 0x0A] else dumped)
                     in if formatted = original_text then (False, None)
                        else (case write_text F p formatted of
                                None \<Rightarrow> (True, None)
                              | Some e \<Rightarrow>
                                  (False,
                                   Some (''Failed to write '' @ path_str p @ '': '' @ e)))))))"

text \<open>
  The command line after \<open>argparse\<close>: the parsed arguments, or the exit status with which
  \<open>argparse\<close> leaves the process (a rejected command line, \<open>--help\<close>).
\<close>

record cli_args =
  arg_dir :: path
  arg_recursive :: bool
  arg_indent :: int

datatype parse_outcome = Parsed cli_args | Exits int

text \<open>What \<open>main\<close> prints, without the formatting of the lines.\<close>

datatype cli_output =
    Stderr string
  | No_files_found
  | Report_error path string
  | Report_updated path
  | Report_ok path
  | Summary nat nat nat nat

record tally =
  changed :: nat
  skipped :: nat
  errors :: nat
  printed :: "cli_output list"

text \<open>The body of the loop over the sorted files.\<close>

definition report_file :: "'j fs_env \<Rightarrow> int \<Rightarrow> path \<Rightarrow> tally \<Rightarrow> tally" where
  "report_file F indent p t =
     (case format_json_file F p indent of
        (did_change, Some err) \<Rightarrow>
          t\<lparr>errors := errors t + 1, printed := printed t @ [Report_error p err]\<rparr>
      | (did_change, None) \<Rightarrow>
          if did_change then t\<lparr>changed := changed t + 1, printed := printed t @ [Report_updated p]\<rparr>
          else t\<lparr>skipped := skipped t + 1, printed := printed t @ [Report_ok p]\<rparr>)"

fun report_files :: "'j fs_env \<Rightarrow> int \<Rightarrow> path list \<Rightarrow> tally \<Rightarrow> tally" where
  "report_files F indent [] t = t"
| "report_files F indent (p # ps) t = report_files F indent ps (report_file F indent p t)"

record cli_result =
  exit_status :: int
  stdout_stderr :: "cli_output list"

text \<open>\<open>main(argv)\<close>, whose value is the exit status of the process.\<close>

definition main :: "'j fs_env \<Rightarrow> parse_outcome \<Rightarrow> cli_result" where
  "main F parsed =
     (case parsed of
        Exits status \<Rightarrow> \<lparr>exit_status = status, stdout_stderr = []\<rparr>
      | Parsed args \<Rightarrow>
          if \<not> path_exists F (arg_dir args) then
            \<lparr>exit_status = 2,
             stdout_stderr = [Stderr (''Directory does not exist: '' @ path_str (arg_dir args))]\<rparr>
          else if \<not> path_is_dir F (arg_dir args) then
            \<lparr>exit_status = 2,
             stdout_stderr = [Stderr (''Not a directory: '' @ path_str (arg_dir args))]\<rparr>
          else if arg_indent args < 0 then
            \<lparr>exit_status = 2, stdout_stderr = [Stderr ''Indent must be non-negative'']\<rparr>
          else
            (let json_files = find_json_files F (arg_dir args) (arg_recursive args)
             in if json_files = [] then \<lparr>exit_status = 0, stdout_stderr = [No_files_found]\<rparr>
                else
                  (let t = report_files F (arg_indent args) (sort json_files)
                             \<lparr>changed = 0, skipped = 0, errors = 0, printed = []\<rparr>
                   in \<lparr>exit_status = (if errors t = 0 then 0 else 1),
                       stdout_stderr =
                         printed t
                         @ [Summary (length json_files) (changed t) (skipped t) (errors t)]\<rparr>)))"

text \<open>Whether formatting a file ends with an error.\<close>

definition file_fails :: "'j fs_env \<Rightarrow> int \<Rightarrow> path \<Rightarrow> bool" where
  "file_fails F indent p = (snd (format_json_file F p indent) \<noteq> None)"

text \<open>
  An empty directory that does not exist, and a directory with one well-formed and one
  broken file.
\<close>

definition no_directory :: "unit fs_env" where
  "no_directory =
     \<lparr>path_exists = (\<lambda>p. False), path_is_dir = (\<lambda>p. False), glob_json = (\<lambda>p r. []),
      read_text = (\<lambda>p. Inl ''No such file''), json_loads = (\<lambda>s. Inr ()),
      json_dumps = (\<lambda>d i. Inr ''{}''), write_text = (\<lambda>p s. None)\<rparr>"

definition two_files :: "unit fs_env" where
  "two_files =
     \<lparr>path_exists = (\<lambda>p. True), path_is_dir = (\<lambda>p. True),
      glob_json = (\<lambda>p r. [[''data'', ''b.json''], [''data'', ''a.json'']]),
      read_text = (\<lambda>p. Inr (if p = [''data'', ''a.json''] then ''{ }'' else ''{'')),
      json_loads = (\<lambda>s. if s = ''{ }'' then Inr () else Inl ''Expecting property name''),
      json_dumps = (\<lambda>d i. Inr ''{}''), write_text = (\<lambda>p s. None)\<rparr>"

section \<open>Concrete environments for example runs\<close>

text \<open>
  \<open>float\<close> on a plain decimal numeral with an optional minus sign, and \<open>int\<close> on a
  plain run of digits: the two builtins on the inputs of the example runs.
\<close>

definition digit_value :: "char \<Rightarrow> nat" where
  "digit_value c =
     (case map_of (zip ''0123456789'' [0, 1, 2, 3, 4, 5, 6, 7, 8, 9]) c of
        None \<Rightarrow> 0 | Some d \<Rightarrow> d)"

definition digits_value :: "string \<Rightarrow> nat" where
  "digits_value ds = foldl (\<lambda>acc c. 10 * acc + digit_value c) 0 ds"

definition unsigned_decimal :: "string \<Rightarrow> rat option" where
  "unsigned_decimal s =
     (let d1 = takeWhile is_digit s; r = dropWhile is_digit s
      in case r of
           [] \<Rightarrow> if d1 \<noteq> [] then Some (of_nat (digits_value d1)) else None
         | c # d2 \<Rightarrow>
             if c = CHR ''.'' \<and> list_all is_digit d2 \<and> (d1 \<noteq> [] \<or> d2 \<noteq> []) then
               Some (of_nat (digits_value d1) + of_nat (digits_value d2) / 10 ^ length d2)
             else None)"

definition decimal_float :: "string \<Rightarrow> rat option" where
  "decimal_float s =
     (case s of
        [] \<Rightarrow> None
      | c # cs \<Rightarrow>
          if c = CHR ''-'' then map_option uminus (unsigned_decimal cs)
          else unsigned_decimal s)"

definition decimal_int :: "string \<Rightarrow> int option" where
  "decimal_int s =
     (if s \<noteq> [] \<and> list_all is_digit s then Some (int (digits_value s)) else None)"

definition response_with :: "string option \<Rightarrow> int option \<Rightarrow> int option \<Rightarrow> response" where
  "response_with text reasoning accepted =
     \<lparr>choices = Some [\<lparr>choice_message = Some \<lparr>message_content = text\<rparr>\<rparr>],
      usage = Some \<lparr>completion_tokens_details =
                Some \<lparr>reasoning_tokens = reasoning, accepted_prediction_tokens = accepted\<rparr>\<rparr>\<rparr>"


text \<open>A provider that answers the attempts \<open>0, 1, ...\<close> from a list, and returns \<open>None\<close> after it.\<close>

definition scripted :: "outcome list \<Rightarrow> int \<Rightarrow> pydict \<Rightarrow> outcome" where
  "scripted script k config =
     (if 0 \<le> k \<and> nat k < length script then script ! nat k else Returned None)"

definition scripted_env :: "outcome list \<Rightarrow> env" where
  "scripted_env script =
     \<lparr>create = scripted script, py_float = decimal_float, py_int_str = decimal_int\<rparr>"

definition example_config :: pydict where
  "example_config =
     create_chatgpt_config (Prompt_str ''hi'') 100 1 1 ''You are a helpful assistant.''
       ''gpt-5-mini-2025-08-07'' ''minimal''"


definition partial_reply :: response where
  "partial_reply = response_with (Some []) (Some 40) None"

definition ok_reply :: response where
  "ok_reply = response_with (Some ''ok'') (Some 10) (Some 0)"

text \<open>
  An Anthropic client without the prompt-caching path that fails twice and then answers;
  every failed attempt is found to have taken 600 time units.
\<close>

definition scripted_calls :: "'r call_outcome list \<Rightarrow> nat \<Rightarrow> pydict \<Rightarrow> 'r call_outcome" where
  "scripted_calls script k config = (if k < length script then script ! k else Returns None)"

definition example_anthropic_env :: "string anthropic_env" where
  "example_anthropic_env =
     \<lparr>messages_create =
        scripted_calls [Raises (OtherException ''overloaded''),
                        Raises (OtherException ''overloaded''), Returns (Some ''ok'')],
      prompt_caching_create = None,
      elapsed = (\<lambda>k. 600)\<rparr>"

definition example_anthropic_config :: pydict where
  "example_anthropic_config =
     create_anthropic_config (Prompt_str ''hi'') 100 1 1 ''You are a helpful assistant.''
       ''claude-2.1'' None"

section \<open>Properties of the configuration builders\<close>

lemma create_anthropic_config_messages:
  "dict_get (create_anthropic_config message max_tokens temperature batch_size system_message
       model tools) ''messages'' =
     (case message of
        Prompt_list ms \<Rightarrow> PList ms
      | Prompt_str s \<Rightarrow> PList [anthropic_user_entry s])"
  by (cases message)
     (simp_all add: create_anthropic_config_def dict_get_def Let_def update_conv'
        split: option.split)

lemma create_chatgpt_config_messages:
  "dict_get (create_chatgpt_config message max_tokens temperature batch_size system_message
       model reasoning_effort) ''messages'' =
     (case message of
        Prompt_list ms \<Rightarrow> PList ([system_entry system_message] @ ms)
      | Prompt_str s \<Rightarrow> PList [system_entry system_message, user_entry s])"
  by (cases message) (simp_all add: dict_get_def)



text \<open>
  Claim C7, as stated, asks both builders to give \<open>[system message, user message(prompt)]\<close>
  for a string prompt. The Anthropic-style builder does not: for the prompt \<open>hi\<close> its
  message sequence is the single user entry with one text block, which is not the
  two-entry sequence of the claim.
\<close>

theorem C7_anthropic_string_counterexample:
  "dict_get (create_anthropic_config (Prompt_str ''hi'') 100 1 1 ''You are a helpful assistant.''
       ''claude-2.1'' None) ''messages''
   \<noteq> PList [system_entry ''You are a helpful assistant.'', user_entry ''hi'']"
  by (simp add: create_anthropic_config_def dict_get_def)

text \<open>
  Claim C7, amended: the OpenAI-style builder gives \<open>[system message, user message(prompt)]\<close>
  for a string prompt and \<open>[system message] + input list\<close> for a list prompt; the
  Anthropic-style builder gives the input list itself for a list prompt and, for a string
  prompt, exactly one user message holding one text block with the prompt (no system
  entry).
\<close>

theorem C7_builder_message_sequences:
  "dict_get (create_chatgpt_config (Prompt_str s) max_tokens temperature batch_size
       system_message model reasoning_effort) ''messages''
     = PList [system_entry system_message, user_entry s]
   \<and> dict_get (create_chatgpt_config (Prompt_list ms) max_tokens temperature batch_size
       system_message model reasoning_effort) ''messages''
     = PList ([system_entry system_message] @ ms)
   \<and> dict_get (create_anthropic_config (Prompt_list ms) max_tokens temperature batch_size
       system_message model' tools) ''messages''
     = PList ms
   \<and> dict_get (create_anthropic_config (Prompt_str s) max_tokens temperature batch_size
       system_message model' tools) ''messages''
     = PList [PDict [(''role'', PStr ''user''),
                     (''content'', PList [PDict [(''type'', PStr ''text''), (''text'', PStr s)]])]]"
  by (simp add: dict_get_def create_anthropic_config_messages [unfolded dict_get_def]
      anthropic_user_entry_def text_block_def)

theorem C7_builder_message_sequences_witness:
  "dict_get (create_chatgpt_config (Prompt_list [user_entry ''a'', user_entry ''b'']) 64 1 1
       ''sys'' ''gpt'' ''minimal'') ''messages''
     = PList [system_entry ''sys'', user_entry ''a'', user_entry ''b'']
   \<and> dict_get (create_anthropic_config (Prompt_list [user_entry ''a'', user_entry ''b'']) 64 1 1
       ''sys'' ''claude-2.1'' None) ''messages''
     = PList [user_entry ''a'', user_entry ''b'']"
  using C7_builder_message_sequences
    [of "''x''" 64 1 1 "''sys''" "''gpt''" "''minimal''" "[user_entry ''a'', user_entry ''b'']"
        "''claude-2.1''" None]
  by simp



section \<open>Properties of the cooldown gate\<close>

lemma gate_records_clock:
  "last_openai_request_ts (sleep_if_needed_for_openai_cooldown T tm s)
     = clock (sleep_if_needed_for_openai_cooldown T tm s)"
  by (simp add: sleep_if_needed_for_openai_cooldown_def Let_def)

lemma gate_step_spacing:
  assumes "timing_ok tm"
  shows "T \<le> last_openai_request_ts (sleep_if_needed_for_openai_cooldown T tm s)
             - last_openai_request_ts s"
  using assms
  by (simp add: sleep_if_needed_for_openai_cooldown_def Let_def time_sleep_def timing_ok_def)

lemma gate_step_spacing_idle:
  assumes "timing_ok tm"
  shows "T \<le> last_openai_request_ts
               (sleep_if_needed_for_openai_cooldown T tm (s\<lparr>clock := clock s + idle\<rparr>))
             - last_openai_request_ts s"
  using gate_step_spacing [OF assms, of T "s\<lparr>clock := clock s + idle\<rparr>"] by simp

lemma length_gate_calls: "length (gate_calls T cs s) = length cs"
  by (induction cs arbitrary: s) (auto simp: Let_def)

lemma gate_calls_records_clock:
  "i < length cs \<Longrightarrow>
     last_openai_request_ts (gate_calls T cs s ! i) = clock (gate_calls T cs s ! i)"
proof (induction cs arbitrary: s i)
  case Nil
  then show ?case by simp
next
  case (Cons c cs)
  obtain idle tm where c: "c = (idle, tm)" by (cases c)
  show ?case
  proof (cases i)
    case 0
    then show ?thesis by (simp add: c Let_def gate_records_clock)
  next
    case (Suc j)
    with Cons.prems have "j < length cs" by simp
    from Cons.IH [OF this] show ?thesis by (simp add: c Suc Let_def)
  qed
qed

lemma gate_calls_spacing:
  "list_all (\<lambda>c. timing_ok (snd c)) cs \<Longrightarrow> i < length cs \<Longrightarrow>
     T \<le> last_openai_request_ts (gate_calls T cs s ! i)
         - last_openai_request_ts ((s # gate_calls T cs s) ! i)"
proof (induction cs arbitrary: s i)
  case Nil
  then show ?case by simp
next
  case (Cons c cs)
  obtain idle tm where c: "c = (idle, tm)" by (cases c)
  from Cons.prems have ok: "timing_ok tm" and oks: "list_all (\<lambda>c. timing_ok (snd c)) cs"
    by (simp_all add: c)
  show ?case
  proof (cases i)
    case 0
    from gate_step_spacing_idle [OF ok] show ?thesis by (simp add: c 0 Let_def)
  next
    case (Suc j)
    with Cons.prems have "j < length cs" by simp
    from Cons.IH [OF oks this] show ?thesis by (simp add: c Suc Let_def)
  qed
qed

text \<open>
  Claim C1: in every sequence of calls of the gate with interval \<open>T\<close>, each call records
  a dispatch-start timestamp (the clock reading at the end of that call), and the
  timestamps recorded by two consecutive calls are at least \<open>T\<close> apart; so is the first
  call's timestamp from the one recorded before the sequence. The clock is taken not to
  run backwards inside a call and a sleep to last at least as long as asked; the time
  between calls is arbitrary.
\<close>

theorem C1_cooldown_gate_spacing:
  assumes "list_all (\<lambda>c. timing_ok (snd c)) cs"
  shows "length (gate_calls T cs s) = length cs
       \<and> (\<forall>i < length cs.
            last_openai_request_ts (gate_calls T cs s ! i) = clock (gate_calls T cs s ! i))
       \<and> (\<forall>i. Suc i < length cs \<longrightarrow>
            T \<le> last_openai_request_ts (gate_calls T cs s ! Suc i)
                - last_openai_request_ts (gate_calls T cs s ! i))
       \<and> (cs \<noteq> [] \<longrightarrow>
            T \<le> last_openai_request_ts (gate_calls T cs s ! 0) - last_openai_request_ts s)"
proof (intro conjI allI impI)
  show "length (gate_calls T cs s) = length cs" by (rule length_gate_calls)
next
  fix i assume "i < length cs"
  then show "last_openai_request_ts (gate_calls T cs s ! i) = clock (gate_calls T cs s ! i)"
    by (rule gate_calls_records_clock)
next
  fix i assume "Suc i < length cs"
  from gate_calls_spacing [OF assms this, of T s]
  show "T \<le> last_openai_request_ts (gate_calls T cs s ! Suc i)
           - last_openai_request_ts (gate_calls T cs s ! i)" by simp
next
  assume "cs \<noteq> []"
  then have "0 < length cs" by simp
  from gate_calls_spacing [OF assms this, of T s]
  show "T \<le> last_openai_request_ts (gate_calls T cs s ! 0) - last_openai_request_ts s" by simp
qed

text \<open>Three calls with interval 1: the second has to sleep, the third does not.\<close>

theorem C1_cooldown_gate_spacing_witness:
  "list_all (\<lambda>c. timing_ok (snd c))
     [(0::rat, \<lparr>oversleep = 0, lag = 0\<rparr>),
      (1/4, \<lparr>oversleep = 1/10, lag = 0\<rparr>),
      (5, \<lparr>oversleep = 0, lag = 1/100\<rparr>)]
   \<and> map last_openai_request_ts (gate_calls 1
     [(0::rat, \<lparr>oversleep = 0, lag = 0\<rparr>),
      (1/4, \<lparr>oversleep = 1/10, lag = 0\<rparr>),
      (5, \<lparr>oversleep = 0, lag = 1/100\<rparr>)]
     \<lparr>clock = 1000, last_openai_request_ts = 0\<rparr>)
       = [1000, 10011/10, 100611/100]
   \<and> (1::rat) \<le> last_openai_request_ts (gate_calls 1
     [(0::rat, \<lparr>oversleep = 0, lag = 0\<rparr>),
      (1/4, \<lparr>oversleep = 1/10, lag = 0\<rparr>),
      (5, \<lparr>oversleep = 0, lag = 1/100\<rparr>)]
     \<lparr>clock = 1000, last_openai_request_ts = 0\<rparr> ! Suc 0)
          - last_openai_request_ts (gate_calls 1
     [(0::rat, \<lparr>oversleep = 0, lag = 0\<rparr>),
      (1/4, \<lparr>oversleep = 1/10, lag = 0\<rparr>),
      (5, \<lparr>oversleep = 0, lag = 1/100\<rparr>)]
     \<lparr>clock = 1000, last_openai_request_ts = 0\<rparr> ! 0)
   \<and> (1::rat) \<le> last_openai_request_ts (gate_calls 1
     [(0::rat, \<lparr>oversleep = 0, lag = 0\<rparr>),
      (1/4, \<lparr>oversleep = 1/10, lag = 0\<rparr>),
      (5, \<lparr>oversleep = 0, lag = 1/100\<rparr>)]
     \<lparr>clock = 1000, last_openai_request_ts = 0\<rparr> ! Suc (Suc 0))
          - last_openai_request_ts (gate_calls 1
     [(0::rat, \<lparr>oversleep = 0, lag = 0\<rparr>),
      (1/4, \<lparr>oversleep = 1/10, lag = 0\<rparr>),
      (5, \<lparr>oversleep = 0, lag = 1/100\<rparr>)]
     \<lparr>clock = 1000, last_openai_request_ts = 0\<rparr> ! Suc 0)"
proof -
  have ok: "list_all (\<lambda>c. timing_ok (snd c))
     [(0::rat, \<lparr>oversleep = 0, lag = 0\<rparr>),
      (1/4, \<lparr>oversleep = 1/10, lag = 0\<rparr>),
      (5, \<lparr>oversleep = 0, lag = 1/100\<rparr>)]"
    by (simp add: timing_ok_def)
  have vals: "map last_openai_request_ts (gate_calls 1
     [(0::rat, \<lparr>oversleep = 0, lag = 0\<rparr>),
      (1/4, \<lparr>oversleep = 1/10, lag = 0\<rparr>),
      (5, \<lparr>oversleep = 0, lag = 1/100\<rparr>)]
     \<lparr>clock = 1000, last_openai_request_ts = 0\<rparr>)
       = [1000, 10011/10, 100611/100]"
    by (simp add: sleep_if_needed_for_openai_cooldown_def Let_def time_sleep_def)
  note spacing = C1_cooldown_gate_spacing [OF ok, of 1 "\<lparr>clock = 1000, last_openai_request_ts = 0\<rparr>",
      THEN conjunct2, THEN conjunct2, THEN conjunct1, rule_format]
  have g1: "(1::rat) \<le> last_openai_request_ts (gate_calls 1
     [(0::rat, \<lparr>oversleep = 0, lag = 0\<rparr>),
      (1/4, \<lparr>oversleep = 1/10, lag = 0\<rparr>),
      (5, \<lparr>oversleep = 0, lag = 1/100\<rparr>)]
     \<lparr>clock = 1000, last_openai_request_ts = 0\<rparr> ! Suc 0)
          - last_openai_request_ts (gate_calls 1
     [(0::rat, \<lparr>oversleep = 0, lag = 0\<rparr>),
      (1/4, \<lparr>oversleep = 1/10, lag = 0\<rparr>),
      (5, \<lparr>oversleep = 0, lag = 1/100\<rparr>)]
     \<lparr>clock = 1000, last_openai_request_ts = 0\<rparr> ! 0)"
    by (rule spacing) simp
  have g2: "(1::rat) \<le> last_openai_request_ts (gate_calls 1
     [(0::rat, \<lparr>oversleep = 0, lag = 0\<rparr>),
      (1/4, \<lparr>oversleep = 1/10, lag = 0\<rparr>),
      (5, \<lparr>oversleep = 0, lag = 1/100\<rparr>)]
     \<lparr>clock = 1000, last_openai_request_ts = 0\<rparr> ! Suc (Suc 0))
          - last_openai_request_ts (gate_calls 1
     [(0::rat, \<lparr>oversleep = 0, lag = 0\<rparr>),
      (1/4, \<lparr>oversleep = 1/10, lag = 0\<rparr>),
      (5, \<lparr>oversleep = 0, lag = 1/100\<rparr>)]
     \<lparr>clock = 1000, last_openai_request_ts = 0\<rparr> ! Suc 0)"
    by (rule spacing) simp
  from ok vals g1 g2 show ?thesis by (intro conjI)
qed

section \<open>Properties of the OpenAI-style executor\<close>

declare chatgpt_loop.simps [simp del]

lemma dispatches_append: "dispatches (xs @ ys) = dispatches xs @ dispatches ys"
  by (induction xs rule: dispatches.induct) simp_all

lemma sleeps_append: "sleeps (xs @ ys) = sleeps xs @ sleeps ys"
  by (induction xs rule: sleeps.induct) simp_all

lemma time_sleep_call_dispatches: "dispatches (fst (time_sleep_call secs)) = []"
  by (simp add: time_sleep_call_def)

lemma handle_openai_error_dispatches: "dispatches (fst (handle_openai_error E e)) = []"
  by (cases "err_class e")
     (simp_all add: handle_openai_error_def time_sleep_call_def Let_def)

lemma handle_openai_error_dispatches':
  "handle_openai_error E e = (evs, x) \<Longrightarrow> dispatches evs = []"
  using handle_openai_error_dispatches [of E e] by simp

lemma dispatches_attempt_events: "dispatches (attempt_events config @ tr) = config # dispatches tr"
  by (simp add: attempt_events_def dispatches_append)

lemma dispatches_attempt_only: "dispatches (attempt_events config) = [config]"
  by (simp add: attempt_events_def)

lemma loop_exit: "\<not> retries < max_retries \<Longrightarrow>
    chatgpt_loop E config max_retries retries = (Inr None, retries, [])"
  by (subst chatgpt_loop.simps) simp

lemma loop_returned:
  "retries < max_retries \<Longrightarrow> create E retries config = Returned (Some r) \<Longrightarrow>
     chatgpt_loop E config max_retries retries = (Inr (Some r), retries + 1, attempt_events config)"
  by (subst chatgpt_loop.simps) (simp add: prepend_def attempt_events_def)

lemma loop_returned_None:
  "retries < max_retries \<Longrightarrow> create E retries config = Returned None \<Longrightarrow>
     chatgpt_loop E config max_retries retries =
       prepend (attempt_events config) (chatgpt_loop E config max_retries (retries + 1))"
  by (subst chatgpt_loop.simps) (simp add: attempt_events_def)

lemma loop_raised_other:
  "retries < max_retries \<Longrightarrow> create E retries config = Raised_other x \<Longrightarrow>
     chatgpt_loop E config max_retries retries = (Inl x, retries, attempt_events config)"
  by (subst chatgpt_loop.simps) (simp add: prepend_def attempt_events_def)

lemma loop_handler_raised:
  "retries < max_retries \<Longrightarrow> create E retries config = Raised_OpenAIError e \<Longrightarrow>
   handle_openai_error E e = (evs, Some x) \<Longrightarrow>
     chatgpt_loop E config max_retries retries = (Inl x, retries, attempt_events config @ evs)"
  by (subst chatgpt_loop.simps) (simp add: prepend_def attempt_events_def)

lemma loop_handler_continues:
  "retries < max_retries \<Longrightarrow> create E retries config = Raised_OpenAIError e \<Longrightarrow>
   handle_openai_error E e = (evs, None) \<Longrightarrow>
     chatgpt_loop E config max_retries retries =
       prepend (attempt_events config @ evs) (chatgpt_loop E config max_retries (retries + 1))"
  by (subst chatgpt_loop.simps) (simp add: prepend_def attempt_events_def split: prod.split)


text \<open>The shape of every result of the loop.\<close>

lemma loop_shape:
  "chatgpt_loop E config max_retries retries = (res, n, tr) \<Longrightarrow>
     dispatches tr = replicate (length (dispatches tr)) config
   \<and> int (length (dispatches tr)) \<le> max 0 (max_retries - retries)
   \<and> (case res of
        Inr ret \<Rightarrow> n = retries + int (length (dispatches tr))
      | Inl x \<Rightarrow> n + 1 = retries + int (length (dispatches tr)) \<and> n < max_retries)"
proof (induction E config max_retries retries arbitrary: res n tr rule: chatgpt_loop.induct)
  case (1 E config max_retries retries)
  show ?case
  proof (cases "retries < max_retries")
    case False
    with "1.prems" loop_exit [OF False, of E config] show ?thesis
      by auto
  next
    case lt: True
    show ?thesis
    proof (cases "create E retries config")
      case (Returned ret)
      show ?thesis
      proof (cases ret)
        case None
        obtain res' n' tr' where rec: "chatgpt_loop E config max_retries (retries + 1) = (res', n', tr')"
          by (cases "chatgpt_loop E config max_retries (retries + 1)") auto
        from "1.IH"(1) [OF lt Returned None rec]
        have ih: "dispatches tr' = replicate (length (dispatches tr')) config"
          "int (length (dispatches tr')) \<le> max 0 (max_retries - (retries + 1))"
          "(case res' of Inr ret \<Rightarrow> n' = retries + 1 + int (length (dispatches tr'))
             | Inl x \<Rightarrow> n' + 1 = retries + 1 + int (length (dispatches tr')) \<and> n' < max_retries)"
          by simp_all
        from loop_returned_None [OF lt Returned [unfolded None]] rec "1.prems"
        have eq: "res = res'" "n = n'" "tr = attempt_events config @ tr'"
          by (simp_all add: prepend_def)
        have d: "dispatches tr = config # dispatches tr'"
          by (simp add: eq dispatches_attempt_events)
        show ?thesis
          using ih lt unfolding d eq(1,2)
          by (cases res') (auto simp: d)
      next
        case (Some r)
        from loop_returned [OF lt Returned [unfolded Some]] "1.prems"
        have "res = Inr (Some r)" "n = retries + 1" "tr = attempt_events config @ []" by simp_all
        then show ?thesis using lt by (simp add: dispatches_attempt_only)
      qed
    next
      case (Raised_OpenAIError e)
      obtain evs raised where h: "handle_openai_error E e = (evs, raised)"
        by (cases "handle_openai_error E e") auto
      note nd = handle_openai_error_dispatches' [OF h]
      show ?thesis
      proof (cases raised)
        case (Some x)
        from loop_handler_raised [OF lt Raised_OpenAIError h [unfolded Some]] "1.prems"
        have "res = Inl x" "n = retries" "tr = attempt_events config @ evs" by simp_all
        then show ?thesis using lt nd by (simp add: dispatches_attempt_events)
      next
        case None
        obtain res' n' tr' where rec: "chatgpt_loop E config max_retries (retries + 1) = (res', n', tr')"
          by (cases "chatgpt_loop E config max_retries (retries + 1)") auto
        from "1.IH"(2) [OF lt Raised_OpenAIError h [symmetric] None rec]
        have ih: "dispatches tr' = replicate (length (dispatches tr')) config"
          "int (length (dispatches tr')) \<le> max 0 (max_retries - (retries + 1))"
          "(case res' of Inr ret \<Rightarrow> n' = retries + 1 + int (length (dispatches tr'))
             | Inl x \<Rightarrow> n' + 1 = retries + 1 + int (length (dispatches tr')) \<and> n' < max_retries)"
          by simp_all
        from loop_handler_continues [OF lt Raised_OpenAIError h [unfolded None]] rec "1.prems"
        have eq: "res = res'" "n = n'" "tr = (attempt_events config @ evs) @ tr'"
          by (simp_all add: prepend_def)
        have d: "dispatches tr = config # dispatches tr'"
          using nd by (simp add: eq dispatches_attempt_only dispatches_append)
        show ?thesis
          using ih lt unfolding d eq(1,2)
          by (cases res') (auto simp: d)
      qed
    next
      case (Raised_other x)
      from loop_raised_other [OF lt Raised_other] "1.prems"
      have "res = Inl x" "n = retries" "tr = attempt_events config @ []" by simp_all
      then show ?thesis using lt by (simp add: dispatches_attempt_only)
    qed
  qed
qed








text \<open>The two ways for the token-budget retry to end.\<close>

lemma bump_retry_cases:
  assumes "bump_retry E config ret n = (ret', config', tr')"
  shows "(ret' = ret \<and> config' = config \<and> dispatches tr' = [])
       \<or> (\<exists>r cap. ret = Some r \<and> first_content_empty r = Some True \<and> budget_exhausted config r
            \<and> py_int E (configured_cap config) = Some cap
            \<and> config' = bump_config (cap + max 512 (cap div 2)) config
            \<and> dispatches tr' = [config']
            \<and> ret' = (case create E n config' of Returned x \<Rightarrow> x | _ \<Rightarrow> Some r))"
  using assms
  by (auto simp: bump_retry_def Let_def split: option.splits if_splits outcome.splits)



lemma engine_Inr:
  "chatgpt_loop E config max_retries 0 = (Inr ret, n, tr) \<Longrightarrow>
   bump_retry E config ret n = (ret', config', tr') \<Longrightarrow>
     request_chatgpt_engine E config max_retries =
       \<lparr>returned = Inr ret', final_config = config',
        events = tr @ [Info ''API response''] @ tr'\<rparr>"
  by (simp add: request_chatgpt_engine_def)

lemma bump_config_get:
  "dict_get (bump_config b config) k =
     (if k = ''max_tokens'' \<or> k = ''max_completion_tokens'' then PInt b else dict_get config k)"
  by (simp add: bump_config_def dict_get_def update_conv')

lemma first_content_empty_iff:
  "first_content_empty r = Some True \<longleftrightarrow>
     (\<exists>c cs m. choices r = Some (c # cs) \<and> choice_message c = Some m
        \<and> (message_content m = None \<or> message_content m = Some []))"
  by (auto simp: first_content_empty_def split: option.splits list.splits)


lemma engine_dispatches:
  assumes "chatgpt_loop E config max_retries 0 = (Inr ret, n, tr)"
    and "bump_retry E config ret n = (ret', config', tr')"
  shows "dispatches (events (request_chatgpt_engine E config max_retries))
           = dispatches tr @ dispatches tr'"
  by (simp add: engine_Inr [OF assms] dispatches_append)








section \<open>Claims about the OpenAI-style executor\<close>




text \<open>
  Claim C3: when the token-budget retry is performed, with \<open>old\<close> the configured ceiling
  (\<open>int(cap)\<close>), the dispatches of the call are those of the loop, all with the
  caller's configuration, followed by exactly one more, whose configuration has both
  \<open>max_tokens\<close> and \<open>max_completion_tokens\<close> equal to \<open>old + max(512, old // 2)\<close>; and if
  that provider call returns, its value is the value returned.
\<close>

theorem C3_bump_retry_resubmission:
  assumes "chatgpt_loop E config max_retries 0 = (Inr ret, n, tr)"
    and "dispatches (events (request_chatgpt_engine E config max_retries)) \<noteq> dispatches tr"
  shows "\<exists>old. py_int E (configured_cap config) = Some old
       \<and> dispatches tr = replicate (nat n) config
       \<and> dispatches (events (request_chatgpt_engine E config max_retries))
           = dispatches tr @ [final_config (request_chatgpt_engine E config max_retries)]
       \<and> dict_get (final_config (request_chatgpt_engine E config max_retries)) ''max_tokens''
           = PInt (old + max 512 (old div 2))
       \<and> dict_get (final_config (request_chatgpt_engine E config max_retries))
             ''max_completion_tokens''
           = PInt (old + max 512 (old div 2))
       \<and> (\<forall>ret'. create E n (final_config (request_chatgpt_engine E config max_retries))
                    = Returned ret' \<longrightarrow>
             returned (request_chatgpt_engine E config max_retries) = Inr ret')"
proof -
  obtain ret' config' tr' where b: "bump_retry E config ret n = (ret', config', tr')"
    by (cases "bump_retry E config ret n") auto
  note R = engine_Inr [OF assms(1) b]
  from assms(2) engine_dispatches [OF assms(1) b] have "dispatches tr' \<noteq> []" by auto
  with bump_retry_cases [OF b]
  obtain r old where
    old: "py_int E (configured_cap config) = Some old"
    and c': "config' = bump_config (old + max 512 (old div 2)) config"
    and d: "dispatches tr' = [config']"
    and r': "ret' = (case create E n config' of Returned x \<Rightarrow> x | _ \<Rightarrow> Some r)"
    by auto
  from loop_shape [OF assms(1)] have "dispatches tr = replicate (nat n) config"
    by simp
  moreover have "dispatches (events (request_chatgpt_engine E config max_retries))
           = dispatches tr @ [final_config (request_chatgpt_engine E config max_retries)]"
    by (simp add: R dispatches_append d)
  moreover have "dict_get (final_config (request_chatgpt_engine E config max_retries)) ''max_tokens''
           = PInt (old + max 512 (old div 2))"
    by (simp add: R c' bump_config_get)
  moreover have "dict_get (final_config (request_chatgpt_engine E config max_retries))
             ''max_completion_tokens'' = PInt (old + max 512 (old div 2))"
    by (simp add: R c' bump_config_get)
  moreover have "\<forall>ret'. create E n (final_config (request_chatgpt_engine E config max_retries))
                    = Returned ret' \<longrightarrow>
             returned (request_chatgpt_engine E config max_retries) = Inr ret'"
    by (simp add: R r')
  ultimately show ?thesis using old by blast
qed

text \<open>The second reply has content: it is the value returned, and both ceilings are 612.\<close>

theorem C3_bump_retry_resubmission_witness:
  "chatgpt_loop (scripted_env [Returned (Some partial_reply), Returned (Some ok_reply)])
       example_config 40 0
     = (Inr (Some partial_reply), 1, attempt_events example_config)
   \<and> dict_get (final_config (request_chatgpt_engine
          (scripted_env [Returned (Some partial_reply), Returned (Some ok_reply)])
          example_config 40)) ''max_tokens'' = PInt 612
   \<and> dict_get (final_config (request_chatgpt_engine
          (scripted_env [Returned (Some partial_reply), Returned (Some ok_reply)])
          example_config 40)) ''max_completion_tokens'' = PInt 612
   \<and> returned (request_chatgpt_engine
          (scripted_env [Returned (Some partial_reply), Returned (Some ok_reply)])
          example_config 40) = Inr (Some ok_reply)"
proof -
  let ?E = "scripted_env [Returned (Some partial_reply), Returned (Some ok_reply)]"
  let ?R = "request_chatgpt_engine ?E example_config 40"
  have l: "chatgpt_loop ?E example_config 40 0
     = (Inr (Some partial_reply), 1, attempt_events example_config)"
    by code_simp
  have fired: "dispatches (events ?R) \<noteq> dispatches (attempt_events example_config)"
    by code_simp
  have cap: "py_int ?E (configured_cap example_config) = Some 100"
    by code_simp
  have second: "create ?E 1 (final_config ?R) = Returned (Some ok_reply)"
    by code_simp
  from C3_bump_retry_resubmission [OF l fired]
  obtain old where old: "py_int ?E (configured_cap example_config) = Some old"
    and mt: "dict_get (final_config ?R) ''max_tokens'' = PInt (old + max 512 (old div 2))"
    and mct: "dict_get (final_config ?R) ''max_completion_tokens''
                = PInt (old + max 512 (old div 2))"
    and ret: "\<forall>ret'. create ?E 1 (final_config ?R) = Returned ret' \<longrightarrow> returned ?R = Inr ret'"
    by blast
  from old cap have o: "old = 100" by simp
  have v: "(100::int) + max 512 (100 div 2) = 612" by simp
  from mt have a: "dict_get (final_config ?R) ''max_tokens'' = PInt 612"
    unfolding o v .
  from mct have b: "dict_get (final_config ?R) ''max_completion_tokens'' = PInt 612"
    unfolding o v .
  from ret second have c: "returned ?R = Inr (Some ok_reply)" by blast
  from l a b c show ?thesis by (intro conjI)
qed




section \<open>Properties of the search for the suggested wait\<close>

lemma not_digit_dot: "\<not> is_digit CHR ''.''"
  by (simp add: is_digit_def)

lemma lower_char_digit: "is_digit c \<Longrightarrow> lower_char c = c"
proof -
  assume "is_digit c"
  then have "c = CHR ''0'' \<or> c = CHR ''1'' \<or> c = CHR ''2'' \<or> c = CHR ''3'' \<or> c = CHR ''4''
     \<or> c = CHR ''5'' \<or> c = CHR ''6'' \<or> c = CHR ''7'' \<or> c = CHR ''8'' \<or> c = CHR ''9''"
    by (simp add: is_digit_def)
  then show ?thesis
    by (elim disjE) (simp_all add: lower_char_def)
qed


lemma strip_prefix_ci_append:
  "map lower_char w = p \<Longrightarrow> strip_prefix_ci p (w @ r) = Some r"
proof (induction w arbitrary: p)
  case Nil
  then show ?case by simp
next
  case (Cons c w)
  then obtain ps where p: "p = lower_char c # ps" "map lower_char w = ps" by auto
  from Cons.IH [OF p(2)] show ?case by (simp add: p(1))
qed

lemma not_digit_s: "lower_char c = CHR ''s'' \<Longrightarrow> \<not> is_digit c"
proof
  assume a: "lower_char c = CHR ''s''" and d: "is_digit c"
  from lower_char_digit [OF d] a have "c = CHR ''s''" by simp
  with d show False by (simp add: is_digit_def)
qed

lemma not_dot_s: "lower_char c = CHR ''s'' \<Longrightarrow> c \<noteq> CHR ''.''"
proof
  assume a: "lower_char c = CHR ''s''" and d: "c = CHR ''.''"
  have "lower_char CHR ''.'' = CHR ''.''" by (simp add: lower_char_def)
  with a d show False by simp
qed

lemma takeWhile_digits: "list_all is_digit (takeWhile is_digit r)"
  by (induction r) simp_all


lemma digits_then_other:
  "list_all is_digit d \<Longrightarrow> \<not> is_digit c \<Longrightarrow>
     takeWhile is_digit (d @ c # post) = d \<and> dropWhile is_digit (d @ c # post) = c # post"
  by (induction d) simp_all



lemma seconds_text_cases:
  assumes "seconds_text g"
  shows "(list_all is_digit g \<and> g \<noteq> [])
     \<or> (\<exists>d1 d2. g = d1 @ CHR ''.'' # d2 \<and> list_all is_digit d1
            \<and> list_all is_digit d2 \<and> d2 \<noteq> [])"
proof (cases "dropWhile is_digit g")
  case Nil
  have "takeWhile is_digit g @ dropWhile is_digit g = g" by (rule takeWhile_dropWhile_id)
  with Nil have g: "takeWhile is_digit g = g" by simp
  from assms Nil have "takeWhile is_digit g \<noteq> []" by (simp add: seconds_text_def)
  then have ne: "g \<noteq> []" unfolding g .
  from takeWhile_digits [of g] have "list_all is_digit g" unfolding g .
  with ne have "list_all is_digit g \<and> g \<noteq> []" by blast
  then show ?thesis by (rule disjI1)
next
  case (Cons c d2)
  have id: "takeWhile is_digit g @ dropWhile is_digit g = g" by (rule takeWhile_dropWhile_id)
  from assms Cons have c: "c = CHR ''.''" and d2: "d2 \<noteq> []" "list_all is_digit d2"
    by (simp_all add: seconds_text_def)
  from id Cons c have "g = takeWhile is_digit g @ CHR ''.'' # d2" by simp
  with takeWhile_digits [of g] d2
  have "g = takeWhile is_digit g @ CHR ''.'' # d2 \<and> list_all is_digit (takeWhile is_digit g)
            \<and> list_all is_digit d2 \<and> d2 \<noteq> []" by blast
  then have "\<exists>d1 d2. g = d1 @ CHR ''.'' # d2 \<and> list_all is_digit d1
            \<and> list_all is_digit d2 \<and> d2 \<noteq> []" by blast
  then show ?thesis by (rule disjI2)
qed

lemma follows_s_Cons: "follows_s (c # post) = (lower_char c = CHR ''s'')"
  by (simp add: follows_s_def)


lemma match_seconds_dot:
  assumes "dropWhile is_digit r = CHR ''.'' # r2"
  shows "match_seconds r =
     (if takeWhile is_digit r2 \<noteq> [] \<and> follows_s (dropWhile is_digit r2)
      then Some (takeWhile is_digit r @ CHR ''.'' # takeWhile is_digit r2) else None)"
  unfolding match_seconds_def Let_def assms by simp

lemma match_seconds_other:
  assumes "dropWhile is_digit r = c # r2" "c \<noteq> CHR ''.''"
  shows "match_seconds r =
     (if takeWhile is_digit r \<noteq> [] \<and> lower_char c = CHR ''s''
      then Some (takeWhile is_digit r) else None)"
  unfolding match_seconds_def Let_def assms(1) using assms(2) by (simp add: follows_s_Cons)



lemma match_seconds_complete:
  assumes "seconds_text g" "lower_char c = CHR ''s''"
  shows "match_seconds (g @ c # post) = Some g"
proof -
  note nd = not_digit_s [OF assms(2)]
  note ndot = not_dot_s [OF assms(2)]
  from seconds_text_cases [OF assms(1)] show ?thesis
  proof
    assume a: "list_all is_digit g \<and> g \<noteq> []"
    then have dg: "list_all is_digit g" and ne: "g \<noteq> []" by blast+
    from digits_then_other [OF dg nd, of post]
    have tw: "takeWhile is_digit (g @ c # post) = g"
      and dw: "dropWhile is_digit (g @ c # post) = c # post" by blast+
    from match_seconds_other [OF dw ndot] show ?thesis
      unfolding tw using ne assms(2) by simp
  next
    assume "\<exists>d1 d2. g = d1 @ CHR ''.'' # d2 \<and> list_all is_digit d1
            \<and> list_all is_digit d2 \<and> d2 \<noteq> []"
    then obtain d1 d2 where g: "g = d1 @ CHR ''.'' # d2" and d1: "list_all is_digit d1"
      and d2: "list_all is_digit d2" and ne: "d2 \<noteq> []" by blast
    have full: "g @ c # post = d1 @ CHR ''.'' # (d2 @ c # post)" unfolding g by simp
    from digits_then_other [OF d1 not_digit_dot, of "d2 @ c # post"]
    have tw1: "takeWhile is_digit (g @ c # post) = d1"
      and dw1: "dropWhile is_digit (g @ c # post) = CHR ''.'' # (d2 @ c # post)"
      unfolding full by blast+
    from digits_then_other [OF d2 nd, of post]
    have tw2: "takeWhile is_digit (d2 @ c # post) = d2"
      and dw2: "dropWhile is_digit (d2 @ c # post) = c # post" by blast+
    from match_seconds_dot [OF dw1]
    have "match_seconds (g @ c # post) =
       (if d2 \<noteq> [] \<and> follows_s (c # post) then Some (d1 @ CHR ''.'' # d2) else None)"
      unfolding tw1 tw2 dw2 .
    with ne assms(2) have "match_seconds (g @ c # post) = Some (d1 @ CHR ''.'' # d2)"
      by (simp add: follows_s_Cons)
    then show ?thesis unfolding g [symmetric] .
  qed
qed


lemma match_here_complete:
  assumes "map lower_char w = ''try again in ''" "seconds_text g" "lower_char c = CHR ''s''"
  shows "match_here (w @ g @ c # post) = Some g"
proof -
  have p: "strip_prefix_ci ''try again in '' (w @ g @ c # post) = Some (g @ c # post)"
    by (rule strip_prefix_ci_append [OF assms(1)])
  have m: "match_seconds (g @ c # post) = Some g"
    by (rule match_seconds_complete [OF assms(2,3)])
  show ?thesis unfolding match_here_def p using m by simp
qed


lemma re_search_found:
  "match_here rest = Some g \<Longrightarrow> \<exists>g'. re_search_try_again (pre @ rest) = Some g'"
proof (induction pre)
  case Nil
  then show ?case by (cases rest) simp_all
next
  case (Cons c pre)
  from Cons.IH [OF Cons.prems] obtain g' where g': "re_search_try_again (pre @ rest) = Some g'"
    by (elim exE)
  show ?case
  proof (cases "match_here (c # pre @ rest)")
    case None
    with g' show ?thesis by simp
  next
    case (Some a)
    then show ?thesis by simp
  qed
qed


lemma re_search_complete:
  assumes "map lower_char w = ''try again in ''" "seconds_text g" "lower_char c = CHR ''s''"
  shows "\<exists>g'. re_search_try_again (pre @ w @ g @ c # post) = Some g'"
  using re_search_found [OF match_here_complete [OF assms]] .

section \<open>The wait after a rate-limit error\<close>











section \<open>Properties of the Anthropic-style executor\<close>

declare anthropic_loop.simps [simp del]

lemma set_cache_control_idem:
  assumes "set_cache_control config = Some config'"
  shows "set_cache_control config' = Some config'"
proof -
  from assms obtain m ms where msgs: "map_of config ''messages'' = Some (PList (PDict m # ms))"
    by (auto simp: set_cache_control_def split: option.splits pyval.splits list.splits)
  with assms obtain b bs where cont: "map_of m ''content'' = Some (PList (PDict b # bs))"
    by (auto simp: set_cache_control_def split: option.splits pyval.splits list.splits)
  let ?b = "AList.update ''cache_control'' cache_control_value b"
  let ?m = "AList.update ''content'' (PList (PDict ?b # bs)) m"
  from assms msgs cont
  have c': "config' = AList.update ''messages'' (PList (PDict ?m # ms)) config"
    by (simp add: set_cache_control_def)
  have m1: "map_of config' ''messages'' = Some (PList (PDict ?m # ms))"
    unfolding c' by (simp add: update_conv')
  have "set_cache_control config' = Some (AList.update ''messages'' (PList (PDict ?m # ms)) config')"
    by (simp add: set_cache_control_def m1 update_conv')
  also have "AList.update ''messages'' (PList (PDict ?m # ms)) config' = config'"
    unfolding c' by simp
  finally show ?thesis .
qed



text \<open>The configuration an attempt leaves.\<close>

lemma anthropic_attempt_config:
  "config_now (anthropic_attempt A prompt_cache config retries) =
     (if prompt_cache then (case set_cache_control config of None \<Rightarrow> config | Some c \<Rightarrow> c)
      else config)"
  by (simp add: anthropic_attempt_def split: option.splits)

lemma anthropic_loop_exit:
  "\<not> int retries < max_retries \<Longrightarrow>
     anthropic_loop A timeout prompt_cache max_retries config retries =
       \<lparr>response_returned = None, config_after = config, attempts = retries, trace = []\<rparr>"
  by (subst anthropic_loop.simps) simp

lemma anthropic_loop_step:
  assumes "int retries < max_retries"
    and "anthropic_attempt A prompt_cache config retries
           = \<lparr>config_now = config1, attempt_trace = evs, outcome_of = out\<rparr>"
  shows "anthropic_loop A timeout prompt_cache max_retries config retries =
     (case out of
        Returns (Some r) \<Rightarrow>
          \<lparr>response_returned = Some r, config_after = config1, attempts = retries + 1,
           trace = evs\<rparr>
      | Returns None \<Rightarrow>
          trace_prepend evs
            (anthropic_loop A timeout prompt_cache max_retries config1 (retries + 1))
      | Raises x \<Rightarrow>
          trace_prepend (evs @ anthropic_handler A timeout retries)
            (anthropic_loop A timeout prompt_cache max_retries config1 (retries + 1)))"
  using assms
  by (subst anthropic_loop.simps) (simp split: call_outcome.splits option.splits)

lemma config_after_trace_prepend: "config_after (trace_prepend evs res) = config_after res"
  by (simp add: trace_prepend_def)

lemma response_trace_prepend: "response_returned (trace_prepend evs res) = response_returned res"
  by (simp add: trace_prepend_def)

lemma attempts_trace_prepend: "attempts (trace_prepend evs res) = attempts res"
  by (simp add: trace_prepend_def)

lemma trace_trace_prepend: "trace (trace_prepend evs res) = evs @ trace res"
  by (simp add: trace_prepend_def)

text \<open>A configuration that an attempt does not change is the one the loop ends with.\<close>

lemma anthropic_loop_config_fixed:
  "config_now (anthropic_attempt A prompt_cache config 0) = config \<Longrightarrow>
     config_after (anthropic_loop A timeout prompt_cache max_retries config retries) = config"
proof (induction A timeout prompt_cache max_retries config retries rule: anthropic_loop.induct)
  case (1 A timeout prompt_cache max_retries config retries)
  show ?case
  proof (cases "int retries < max_retries")
    case False
    then show ?thesis by (simp add: anthropic_loop_exit)
  next
    case lt: True
    obtain config1 evs out where att:
      "anthropic_attempt A prompt_cache config retries
         = \<lparr>config_now = config1, attempt_trace = evs, outcome_of = out\<rparr>"
      by (cases "anthropic_attempt A prompt_cache config retries") auto
    from "1.prems" have same: "config_now (anthropic_attempt A prompt_cache config retries) = config"
      by (simp add: anthropic_attempt_config)
    with att have c1: "config1 = config" by simp
    from att have outc: "outcome_of (anthropic_attempt A prompt_cache config retries) = out"
      by simp
    note step = anthropic_loop_step [OF lt att, of timeout]
    show ?thesis
    proof (cases out)
      case (Returns ret)
      show ?thesis
      proof (cases ret)
        case None
        from "1.IH"(1) [OF lt outc [unfolded Returns] None] "1.prems" same
        have "config_after (anthropic_loop A timeout prompt_cache max_retries config (retries + 1))
            = config" by simp
        with step Returns None c1 show ?thesis by (simp add: config_after_trace_prepend)
      next
        case (Some r)
        with step Returns c1 show ?thesis by simp
      qed
    next
      case (Raises x)
      from "1.IH"(2) [OF lt outc [unfolded Raises]] "1.prems" same
      have "config_after (anthropic_loop A timeout prompt_cache max_retries config (retries + 1))
          = config" by simp
      with step Raises c1 show ?thesis by (simp add: config_after_trace_prepend)
    qed
  qed
qed

lemma anthropic_loop_config_after:
  "config_after (anthropic_loop A timeout prompt_cache max_retries config retries) =
     (if prompt_cache \<and> int retries < max_retries
      then (case set_cache_control config of None \<Rightarrow> config | Some c \<Rightarrow> c)
      else config)"
proof (cases "int retries < max_retries")
  case False
  then show ?thesis by (simp add: anthropic_loop_exit)
next
  case lt: True
  obtain config1 evs out where att:
    "anthropic_attempt A prompt_cache config retries
       = \<lparr>config_now = config1, attempt_trace = evs, outcome_of = out\<rparr>"
    by (cases "anthropic_attempt A prompt_cache config retries") auto
  from att anthropic_attempt_config [of A prompt_cache config retries]
  have c1: "config1 = (if prompt_cache
        then (case set_cache_control config of None \<Rightarrow> config | Some c \<Rightarrow> c) else config)"
    by simp
  have fixed: "config_now (anthropic_attempt A prompt_cache config1 0) = config1"
  proof (cases prompt_cache)
    case False
    then show ?thesis by (simp add: anthropic_attempt_config)
  next
    case True
    show ?thesis
    proof (cases "set_cache_control config")
      case None
      with True c1 show ?thesis by (simp add: anthropic_attempt_config)
    next
      case (Some c)
      with True c1 set_cache_control_idem [OF Some] show ?thesis
        by (simp add: anthropic_attempt_config)
    qed
  qed
  note rest = anthropic_loop_config_fixed [OF fixed, of timeout max_retries "retries + 1"]
  note step = anthropic_loop_step [OF lt att, of timeout]
  have "config_after (anthropic_loop A timeout prompt_cache max_retries config retries) = config1"
  proof (cases out)
    case (Returns ret)
    with step rest show ?thesis by (cases ret) (simp_all add: config_after_trace_prepend)
  next
    case (Raises x)
    with step rest show ?thesis by (simp add: config_after_trace_prepend)
  qed
  with lt c1 show ?thesis by simp
qed

lemma strip_warnings_append:
  "strip_warnings (xs @ ys) = strip_warnings xs @ strip_warnings ys"
  by (simp add: strip_warnings_def)

lemma strip_warnings_handler:
  "strip_warnings (anthropic_handler A t1 retries) = strip_warnings (anthropic_handler A t2 retries)"
  by (simp add: strip_warnings_def anthropic_handler_def)

lemma sleeps_strip_warnings: "sleeps (strip_warnings tr) = sleeps tr"
proof (induction tr)
  case Nil
  then show ?case by (simp add: strip_warnings_def)
next
  case (Cons ev tr)
  then show ?case by (cases ev) (simp_all add: strip_warnings_def)
qed

lemma dispatches_strip_warnings: "dispatches (strip_warnings tr) = dispatches tr"
proof (induction tr)
  case Nil
  then show ?case by (simp add: strip_warnings_def)
next
  case (Cons ev tr)
  then show ?case by (cases ev) (simp_all add: strip_warnings_def)
qed

lemma anthropic_loop_timeout:
  "response_returned (anthropic_loop A t1 prompt_cache max_retries config retries)
     = response_returned (anthropic_loop A t2 prompt_cache max_retries config retries)
   \<and> attempts (anthropic_loop A t1 prompt_cache max_retries config retries)
     = attempts (anthropic_loop A t2 prompt_cache max_retries config retries)
   \<and> strip_warnings (trace (anthropic_loop A t1 prompt_cache max_retries config retries))
     = strip_warnings (trace (anthropic_loop A t2 prompt_cache max_retries config retries))"
proof (induction A t1 prompt_cache max_retries config retries rule: anthropic_loop.induct)
  case (1 A t1 prompt_cache max_retries config retries)
  show ?case
  proof (cases "int retries < max_retries")
    case False
    then show ?thesis by (simp add: anthropic_loop_exit)
  next
    case lt: True
    obtain config1 evs out where att:
      "anthropic_attempt A prompt_cache config retries
         = \<lparr>config_now = config1, attempt_trace = evs, outcome_of = out\<rparr>"
      by (cases "anthropic_attempt A prompt_cache config retries") auto
    from att have outc: "outcome_of (anthropic_attempt A prompt_cache config retries) = out"
      and cfg: "config_now (anthropic_attempt A prompt_cache config retries) = config1"
      by simp_all
    note s1 = anthropic_loop_step [OF lt att, of t1]
    note s2 = anthropic_loop_step [OF lt att, of t2]
    show ?thesis
    proof (cases out)
      case (Returns ret)
      show ?thesis
      proof (cases ret)
        case None
        from "1.IH"(1) [OF lt outc [unfolded Returns] None, unfolded cfg] s1 s2 Returns None
        show ?thesis
          by (simp add: response_trace_prepend attempts_trace_prepend trace_trace_prepend
              strip_warnings_append)
      next
        case (Some r)
        with s1 s2 Returns show ?thesis by simp
      qed
    next
      case (Raises x)
      from "1.IH"(2) [OF lt outc [unfolded Raises], unfolded cfg] s1 s2 Raises
        strip_warnings_handler [of A t1 retries t2]
      show ?thesis
        by (simp add: response_trace_prepend attempts_trace_prepend trace_trace_prepend
            strip_warnings_append)
    qed
  qed
qed

section \<open>Claims about the configuration and the timeout\<close>





text \<open>
  Claim C8: two runs of \<open>request_anthropic_engine\<close> that differ only in the timeout
  return the same response, make the same number of attempts, leave the same
  configuration and sleep for the same durations; their traces are the same up to the text
  of the warnings. So the comparison of the elapsed time with the timeout decides which
  warning is logged and nothing else.
\<close>

theorem C8_timeout_is_diagnostic:
  "response_returned (request_anthropic_engine A config max_retries t1 prompt_cache)
     = response_returned (request_anthropic_engine A config max_retries t2 prompt_cache)
   \<and> attempts (request_anthropic_engine A config max_retries t1 prompt_cache)
     = attempts (request_anthropic_engine A config max_retries t2 prompt_cache)
   \<and> config_after (request_anthropic_engine A config max_retries t1 prompt_cache)
     = config_after (request_anthropic_engine A config max_retries t2 prompt_cache)
   \<and> sleeps (trace (request_anthropic_engine A config max_retries t1 prompt_cache))
     = sleeps (trace (request_anthropic_engine A config max_retries t2 prompt_cache))
   \<and> strip_warnings (trace (request_anthropic_engine A config max_retries t1 prompt_cache))
     = strip_warnings (trace (request_anthropic_engine A config max_retries t2 prompt_cache))"
proof -
  note T = anthropic_loop_timeout [of A t1 prompt_cache max_retries config 0 t2]
  from T have sw: "strip_warnings (trace (anthropic_loop A t1 prompt_cache max_retries config 0))
     = strip_warnings (trace (anthropic_loop A t2 prompt_cache max_retries config 0))" by simp
  have "sleeps (trace (anthropic_loop A t1 prompt_cache max_retries config 0))
      = sleeps (strip_warnings (trace (anthropic_loop A t1 prompt_cache max_retries config 0)))"
    by (simp add: sleeps_strip_warnings)
  also have "\<dots> = sleeps (trace (anthropic_loop A t2 prompt_cache max_retries config 0))"
    unfolding sw by (simp add: sleeps_strip_warnings)
  finally have sl: "sleeps (trace (anthropic_loop A t1 prompt_cache max_retries config 0))
      = sleeps (trace (anthropic_loop A t2 prompt_cache max_retries config 0))" .
  from T sl show ?thesis
    by (simp add: request_anthropic_engine_def anthropic_loop_config_after)
qed

text \<open>
  The client fails twice and then answers, each failure after 600 time units: with the
  timeout 500 and with the timeout 1000 the answer comes at the third attempt after sleeps
  of 0 and 10, and the two traces differ (in the warnings).
\<close>

theorem C8_timeout_is_diagnostic_witness:
  "response_returned
     (request_anthropic_engine example_anthropic_env example_anthropic_config 40 500 False)
     = Some ''ok''
   \<and> response_returned
     (request_anthropic_engine example_anthropic_env example_anthropic_config 40 1000 False)
     = Some ''ok''
   \<and> attempts
     (request_anthropic_engine example_anthropic_env example_anthropic_config 40 1000 False) = 3
   \<and> sleeps (trace
     (request_anthropic_engine example_anthropic_env example_anthropic_config 40 1000 False))
     = [0, 10]
   \<and> trace (request_anthropic_engine example_anthropic_env example_anthropic_config 40 500 False)
     \<noteq> trace (request_anthropic_engine example_anthropic_env example_anthropic_config 40 1000 False)"
proof -
  let ?R1 = "request_anthropic_engine example_anthropic_env example_anthropic_config 40 500 False"
  let ?R2 = "request_anthropic_engine example_anthropic_env example_anthropic_config 40 1000 False"
  note T = C8_timeout_is_diagnostic
    [of example_anthropic_env example_anthropic_config 40 500 False 1000]
  have r1: "response_returned ?R1 = Some ''ok''" by code_simp
  have a1: "attempts ?R1 = 3" by code_simp
  have s1: "sleeps (trace ?R1) = [0, 10]" by code_simp
  have ne: "trace ?R1 \<noteq> trace ?R2" by code_simp
  from T r1 have r2: "response_returned ?R2 = Some ''ok''" by simp
  from T a1 have a2: "attempts ?R2 = 3" by simp
  from T s1 have s2: "sleeps (trace ?R2) = [0, 10]" by simp
  from r1 r2 a2 s2 ne show ?thesis by (intro conjI)
qed

section \<open>Exit status of the JSON formatter\<close>

lemma report_file_errors:
  "errors (report_file F indent p t) = errors t + (if file_fails F indent p then 1 else 0)"
  by (cases "format_json_file F p indent")
     (auto simp: report_file_def file_fails_def split: option.splits)

lemma report_files_errors:
  "errors (report_files F indent ps t) = errors t + length (filter (file_fails F indent) ps)"
  by (induction ps arbitrary: t) (simp_all add: report_file_errors)

lemma no_errors_iff:
  "errors (report_files F indent (sort ps)
      \<lparr>changed = 0, skipped = 0, errors = 0, printed = []\<rparr>) = 0
   \<longleftrightarrow> \<not> list_ex (file_fails F indent) ps"
proof -
  have "length (filter (file_fails F indent) (sort ps)) = 0
      \<longleftrightarrow> (\<forall>p \<in> set (sort ps). \<not> file_fails F indent p)"
    by (simp add: filter_empty_conv)
  then show ?thesis by (simp add: report_files_errors list_ex_iff)
qed

lemma file_fails_iff:
  "file_fails F indent p \<longleftrightarrow>
     (case read_text F p of
        Inl e \<Rightarrow> True
      | Inr original_text \<Rightarrow>
          (case json_loads F original_text of
             Inl e \<Rightarrow> True
           | Inr data \<Rightarrow>
               (case json_dumps F data indent of
                  Inl e \<Rightarrow> True
                | Inr dumped \<Rightarrow>
                    (let formatted =
                           (if \<not> ends_with_newline dumped then dumped @ [CHR 0x0A] else dumped)
                     in formatted \<noteq> original_text
                        \<and> write_text F p formatted \<noteq> None))))"
proof (cases "read_text F p")
  case (Inl e)
  then show ?thesis by (simp add: file_fails_def format_json_file_def)
next
  case (Inr original_text)
  note r = Inr
  show ?thesis
  proof (cases "json_loads F original_text")
    case (Inl e)
    with r show ?thesis by (simp add: file_fails_def format_json_file_def)
  next
    case (Inr data)
    note l = Inr
    show ?thesis
    proof (cases "json_dumps F data indent")
      case (Inl e)
      with r l show ?thesis by (simp add: file_fails_def format_json_file_def)
    next
      case (Inr dumped)
      let ?formatted = "if \<not> ends_with_newline dumped then dumped @ [CHR 0x0A] else dumped"
      show ?thesis
      proof (cases "?formatted = original_text")
        case True
        with r l Inr show ?thesis
          by (simp add: file_fails_def format_json_file_def Let_def)
      next
        case False
        with r l Inr show ?thesis
          by (cases "write_text F p ?formatted")
             (simp_all add: file_fails_def format_json_file_def Let_def)
      qed
    qed
  qed
qed

text \<open>
  Claim C9, as stated, allows a non-zero exit status only when a file failed. A directory
  that does not exist gives the status 2, and no file was touched.
\<close>

theorem C9_missing_directory_counterexample:
  "exit_status (main no_directory
      (Parsed \<lparr>arg_dir = [''missing''], arg_recursive = False, arg_indent = 2\<rparr>)) = 2
   \<and> find_json_files no_directory [''missing''] False = []"
  by (simp add: main_def no_directory_def find_json_files_def)

text \<open>
  Claim C9, amended. For parsed arguments the exit status is 2 when the directory does not
  exist, is not a directory or the indent is negative; otherwise it is 1 when at least one
  of the \<open>.json\<close> files found failed, and 0 when none did, also when none was found. A
  file fails when reading it, parsing it, serialising it or writing it back raises. When
  \<open>argparse\<close> ends the process, its status is the exit status.
\<close>

theorem C9_exit_status:
  "exit_status (main F (Parsed args)) =
     (if \<not> path_exists F (arg_dir args) \<or> \<not> path_is_dir F (arg_dir args)
         \<or> arg_indent args < 0 then 2
      else if list_ex (file_fails F (arg_indent args))
                (find_json_files F (arg_dir args) (arg_recursive args)) then 1
      else 0)
   \<and> exit_status (main F (Exits status)) = status
   \<and> (\<forall>p indent. file_fails F indent p \<longleftrightarrow>
         (case read_text F p of
            Inl e \<Rightarrow> True
          | Inr original_text \<Rightarrow>
              (case json_loads F original_text of
                 Inl e \<Rightarrow> True
               | Inr data \<Rightarrow>
                   (case json_dumps F data indent of
                      Inl e \<Rightarrow> True
                    | Inr dumped \<Rightarrow>
                        (let formatted =
                               (if \<not> ends_with_newline dumped then dumped @ [CHR 0x0A]
                                else dumped)
                         in formatted \<noteq> original_text
                            \<and> write_text F p formatted \<noteq> None)))))"
proof (intro conjI allI)
  show "exit_status (main F (Parsed args)) =
     (if \<not> path_exists F (arg_dir args) \<or> \<not> path_is_dir F (arg_dir args)
         \<or> arg_indent args < 0 then 2
      else if list_ex (file_fails F (arg_indent args))
                (find_json_files F (arg_dir args) (arg_recursive args)) then 1
      else 0)"
  proof (cases "find_json_files F (arg_dir args) (arg_recursive args) = []")
    case True
    then show ?thesis by (simp add: main_def)
  next
    case False
    then show ?thesis
      using no_errors_iff [of F "arg_indent args"
          "find_json_files F (arg_dir args) (arg_recursive args)"]
      by (simp add: main_def Let_def)
  qed
next
  show "exit_status (main F (Exits status)) = status" by (simp add: main_def)
next
  fix p indent
  show "file_fails F indent p \<longleftrightarrow>
         (case read_text F p of
            Inl e \<Rightarrow> True
          | Inr original_text \<Rightarrow>
              (case json_loads F original_text of
                 Inl e \<Rightarrow> True
               | Inr data \<Rightarrow>
                   (case json_dumps F data indent of
                      Inl e \<Rightarrow> True
                    | Inr dumped \<Rightarrow>
                        (let formatted =
                               (if \<not> ends_with_newline dumped then dumped @ [CHR 0x0A]
                                else dumped)
                         in formatted \<noteq> original_text
                            \<and> write_text F p formatted \<noteq> None))))"
    by (rule file_fails_iff)
qed

text \<open>
  A directory with a file that is rewritten and a file that is not JSON: the status is 1,
  and the files are reported in sorted order. The missing directory: 2.
\<close>

theorem C9_exit_status_witness:
  "exit_status (main two_files
      (Parsed \<lparr>arg_dir = [''data''], arg_recursive = False, arg_indent = 2\<rparr>)) = 1
   \<and> exit_status (main no_directory
      (Parsed \<lparr>arg_dir = [''missing''], arg_recursive = False, arg_indent = 2\<rparr>)) = 2
   \<and> stdout_stderr (main two_files
      (Parsed \<lparr>arg_dir = [''data''], arg_recursive = False, arg_indent = 2\<rparr>))
     = [Report_updated [''data'', ''a.json''],
        Report_error [''data'', ''b.json'']
          ''Invalid JSON in data/b.json: Expecting property name'',
        Summary 2 1 0 1]"
proof -
  let ?a = "\<lparr>arg_dir = [''data''], arg_recursive = False, arg_indent = 2\<rparr>"
  let ?m = "\<lparr>arg_dir = [''missing''], arg_recursive = False, arg_indent = 2\<rparr>"
  have ok: "path_exists two_files (arg_dir ?a)" "path_is_dir two_files (arg_dir ?a)"
    "\<not> arg_indent ?a < 0"
    by (simp_all add: two_files_def)
  have fails: "list_ex (file_fails two_files (arg_indent ?a))
      (find_json_files two_files (arg_dir ?a) (arg_recursive ?a))"
    by (simp add: two_files_def find_json_files_def file_fails_def format_json_file_def)
  from C9_exit_status [of two_files ?a 0, THEN conjunct1] ok fails
  have a: "exit_status (main two_files (Parsed ?a)) = 1" by simp
  have missing: "\<not> path_exists no_directory (arg_dir ?m)" by (simp add: no_directory_def)
  from C9_exit_status [of no_directory ?m 0, THEN conjunct1] missing
  have b: "exit_status (main no_directory (Parsed ?m)) = 2" by simp
  have c: "stdout_stderr (main two_files (Parsed ?a))
     = [Report_updated [''data'', ''a.json''],
        Report_error [''data'', ''b.json'']
          ''Invalid JSON in data/b.json: Expecting property name'',
        Summary 2 1 0 1]"
    by code_simp
  from a b c show ?thesis by (intro conjI)
qed

end
